theory Spec2Isabelle
  imports Main "HOL-Library.AList" "HOL-Library.Char_ord" "HOL-Library.List_Lexorder"
begin

section \<open>Strings: the Python string operations the restorers use\<close>

text \<open>
  Python strings are modelled as \<^typ>\<open>string\<close>, one \<^typ>\<open>char\<close> per code point below 256.
  \<open>py_isspace\<close> is \<open>str.isspace\<close> on one character, which is also the class \<open>\s\<close> of
  \<open>re\<close> on \<open>str\<close> patterns: code points 9 to 13, 28 to 32, 133 and 160.
\<close>

definition py_isspace :: "char \<Rightarrow> bool" where
  "py_isspace c =
     (let n = (of_char c :: nat)
      in (9 \<le> n \<and> n \<le> 13) \<or> (28 \<le> n \<and> n \<le> 32) \<or> n = 133 \<or> n = 160)"

text \<open>\<open>s.strip()\<close>: whitespace removed at both ends.\<close>

definition py_strip :: "string \<Rightarrow> string" where
  "py_strip s = rev (dropWhile py_isspace (rev (dropWhile py_isspace s)))"

text \<open>\<open>s.rfind(c)\<close> for a single character, \<open>None\<close> standing for \<open>-1\<close>.\<close>

definition rfind :: "char \<Rightarrow> string \<Rightarrow> nat option" where
  "rfind c s =
     (if c \<in> set s then Some (length s - 1 - length (takeWhile (\<lambda>x. x \<noteq> c) (rev s)))
      else None)"

text \<open>
  \<open>PurePath.stem\<close> and \<open>PurePath.suffix\<close> of a path that is a single file name (what
  \<open>p.name\<close> yields), as pathlib defines them up to Python 3.13: the name is cut at its
  last dot when that dot is neither the first nor the last character.
\<close>

definition py_stem :: "string \<Rightarrow> string" where
  "py_stem name =
     (case rfind (CHR ''.'') name of
        None \<Rightarrow> name
      | Some i \<Rightarrow> if 0 < i \<and> i < length name - 1 then take i name else name)"

definition py_suffix :: "string \<Rightarrow> string" where
  "py_suffix name =
     (case rfind (CHR ''.'') name of
        None \<Rightarrow> []
      | Some i \<Rightarrow> if 0 < i \<and> i < length name - 1 then drop i name else [])"

section \<open>KeyNormalizer: the two GUID file name patterns\<close>

text \<open>The character class \<open>[0-9A-Fa-f-]\<close>.\<close>

definition guid_char :: "char \<Rightarrow> bool" where
  "guid_char c =
     ((CHR ''0'' \<le> c \<and> c \<le> CHR ''9'') \<or> (CHR ''A'' \<le> c \<and> c \<le> CHR ''F'')
      \<or> (CHR ''a'' \<le> c \<and> c \<le> CHR ''f'') \<or> c = CHR ''-'')"

text \<open>
  \<open>\{[0-9A-Fa-f-]{36}\}SFX$\<close> against the whole rest of the subject, where \<open>SFX\<close> is the
  literal text \<open>.xml\<close> or \<open>.diff.lua\<close>. Without \<open>re.MULTILINE\<close>, \<open>$\<close> matches at the end
  of the subject and also just before a newline that ends it.
\<close>

definition guid_tail :: "string \<Rightarrow> string \<Rightarrow> bool" where
  "guid_tail sfx t =
     (case t of
        [] \<Rightarrow> False
      | c # r \<Rightarrow>
          c = CHR ''{'' \<and> 36 \<le> length r \<and> list_all guid_char (take 36 r)
          \<and> (drop 36 r = ''}'' @ sfx \<or> drop 36 r = ''}'' @ sfx @ [CHR 0x0A]))"

text \<open>
  \<open>\s+\<close> followed by the tail: the run of whitespace is taken whole, since the tail
  starts with a brace, which is no whitespace.
\<close>

definition ws_then_tail :: "string \<Rightarrow> string \<Rightarrow> bool" where
  "ws_then_tail sfx r =
     (takeWhile py_isspace r \<noteq> [] \<and> guid_tail sfx (dropWhile py_isspace r))"

text \<open>
  The group \<open>(?P<stem>.*)\<close> is greedy: it first takes \<open>n\<close> characters and gives them
  back one at a time until the rest of the pattern matches.
\<close>

fun stem_search :: "string \<Rightarrow> string \<Rightarrow> nat \<Rightarrow> string option" where
  "stem_search sfx s 0 = (if ws_then_tail sfx s then Some [] else None)"
| "stem_search sfx s (Suc i) =
     (if ws_then_tail sfx (drop (Suc i) s) then Some (take (Suc i) s)
      else stem_search sfx s i)"

text \<open>
  \<open>re.compile(r"^(?P<stem>.*)\s+\{[0-9A-Fa-f-]{36}\}SFX$").match(s)\<close>: the stem group of
  the match, or \<open>None\<close>. The dot matches no newline, so the stem starts out as the
  subject up to its first newline.
\<close>

definition guid_re_match :: "string \<Rightarrow> string \<Rightarrow> string option" where
  "guid_re_match sfx s = stem_search sfx s (length (takeWhile (\<lambda>c. c \<noteq> CHR 0x0A) s))"

abbreviation GUID_FILENAME_RE :: "string \<Rightarrow> string option" where
  "GUID_FILENAME_RE \<equiv> guid_re_match ''.xml''"

abbreviation GUID_DIFF_RE :: "string \<Rightarrow> string option" where
  "GUID_DIFF_RE \<equiv> guid_re_match ''.diff.lua''"

text \<open>\<open>bms_restore.normalize_key\<close>.\<close>

definition normalize_key :: "string \<Rightarrow> string" where
  "normalize_key xml_filename =
     (case GUID_FILENAME_RE xml_filename of
        Some stem \<Rightarrow> py_strip stem
      | None \<Rightarrow> py_strip (py_stem xml_filename))"

text \<open>\<open>dcs_restore.normalize_guid_filename\<close>.\<close>

definition normalize_guid_filename :: "string \<Rightarrow> string" where
  "normalize_guid_filename name =
     (case GUID_DIFF_RE name of
        Some stem \<Rightarrow> py_strip stem
      | None \<Rightarrow> name)"

text \<open>
  \<open>s.lower()\<close> on the letters A to Z. The restorers only compare the lowered text with
  ASCII literals (\<open>.xml\<close>, \<open>.zip\<close>, \<open>joystick\<close>), and no other code point below 256
  lowers to an ASCII letter, so these comparisons come out as in Python.
\<close>

definition ascii_lower :: "string \<Rightarrow> string" where
  "ascii_lower s =
     map (\<lambda>c. if CHR ''A'' \<le> c \<and> c \<le> CHR ''Z'' then char_of (of_char c + (32::nat)) else c) s"

text \<open>\<open>s.split('.')\<close>.\<close>

fun split_dot :: "string \<Rightarrow> string \<Rightarrow> string list" where
  "split_dot cur [] = [cur]"
| "split_dot cur (c # cs) =
     (if c = CHR ''.'' then cur # split_dot [] cs else split_dot (cur @ [c]) cs)"

text \<open>\<open>PurePath.suffixes\<close> of a file name (Python up to 3.13).\<close>

definition py_suffixes :: "string \<Rightarrow> string list" where
  "py_suffixes name =
     (if name \<noteq> [] \<and> last name = CHR ''.'' then []
      else map (\<lambda>s. CHR ''.'' # s) (tl (split_dot [] (dropWhile (\<lambda>c. c = CHR ''.'') name))))"

text \<open>The slice \<open>xs[-2:]\<close>.\<close>

definition last2 :: "'a list \<Rightarrow> 'a list" where
  "last2 xs = drop (length xs - 2) xs"


section \<open>The file system and its failures\<close>

text \<open>
  A path is the list of its components below the file system root. The disk is an
  association list from paths to nodes, in the order in which the operating system
  enumerates them; a file carries its bytes and its modification time. Exceptions are
  values, and an operation that raises still returns the disk as it left it.
\<close>

datatype py_error =
    FileNotFoundError | NotADirectoryError | IsADirectoryError | FileExistsError
  | PermissionError | SameFileError | OSError
  | AttributeError | TypeError | ValueError

type_synonym path = "string list"

datatype node = Dir | File string int

type_synonym disk = "(path \<times> node) list"

text \<open>
  What the environment decides: the digest function, the clock reading that a write
  stamps on a file, the time stamp in an archive's name, the bytes of an archive with
  given entries (finished, and on disk while it is being written), whether a
  modification time lies before 1980 in local time, and which accesses fail. A file can be unreadable, a path can refuse
  to be opened for writing, a write can break off after some bytes, and a rename or an
  unlink can be refused.
\<close>

record io_env =
  sha256 :: "string \<Rightarrow> string"
  now :: int
  zip_stamp :: string
  zip_bytes :: "(path \<times> string) list \<Rightarrow> string"
  zip_partial :: "(path \<times> string) list \<Rightarrow> string"
  before_1980 :: "int \<Rightarrow> bool"
  unreadable :: "path \<Rightarrow> bool"
  unwritable :: "path \<Rightarrow> bool"
  write_cut :: "path \<Rightarrow> nat option"
  replace_fails :: "path \<Rightarrow> path \<Rightarrow> bool"
  unlink_fails :: "path \<Rightarrow> bool"

definition path_exists :: "disk \<Rightarrow> path \<Rightarrow> bool" where
  "path_exists d p = (map_of d p \<noteq> None)"

definition is_file :: "disk \<Rightarrow> path \<Rightarrow> bool" where
  "is_file d p = (case map_of d p of Some (File c m) \<Rightarrow> True | _ \<Rightarrow> False)"

text \<open>\<open>p.name\<close>: the last component, empty for the root.\<close>

definition path_name :: "path \<Rightarrow> string" where
  "path_name p = (if p = [] then [] else last p)"

text \<open>\<open>folder.iterdir()\<close>: the children of a directory, in the disk's order.\<close>

definition iterdir :: "disk \<Rightarrow> path \<Rightarrow> py_error + path list" where
  "iterdir d folder =
     (case map_of d folder of
        None \<Rightarrow> Inl FileNotFoundError
      | Some (File c m) \<Rightarrow> Inl NotADirectoryError
      | Some Dir \<Rightarrow> Inr [p \<leftarrow> map fst d. p \<noteq> [] \<and> butlast p = folder])"

text \<open>Everything below a root: \<open>root.rglob("*")\<close> before sorting.\<close>

definition below :: "path \<Rightarrow> path \<Rightarrow> bool" where
  "below root p = (length root < length p \<and> take (length root) p = root)"

definition rglob_all :: "disk \<Rightarrow> path \<Rightarrow> path list" where
  "rglob_all d root = [p \<leftarrow> map fst d. below root p]"

text \<open>Opening a file and reading all of it.\<close>

definition read_bytes :: "io_env \<Rightarrow> disk \<Rightarrow> path \<Rightarrow> py_error + string" where
  "read_bytes E d p =
     (case map_of d p of
        None \<Rightarrow> Inl FileNotFoundError
      | Some Dir \<Rightarrow> Inl IsADirectoryError
      | Some (File c m) \<Rightarrow> if unreadable E p then Inl PermissionError else Inr c)"

text \<open>\<open>sha256_file\<close>, the same in both restorers: the digest of the file's bytes.\<close>

definition sha256_file :: "io_env \<Rightarrow> disk \<Rightarrow> path \<Rightarrow> py_error + string" where
  "sha256_file E d p =
     (case read_bytes E d p of Inl e \<Rightarrow> Inl e | Inr c \<Rightarrow> Inr (sha256 E c))"

text \<open>\<open>p.stat().st_mtime\<close> of a file.\<close>

definition st_mtime :: "disk \<Rightarrow> path \<Rightarrow> py_error + int" where
  "st_mtime d p =
     (case map_of d p of Some (File c m) \<Rightarrow> Inr m | _ \<Rightarrow> Inl FileNotFoundError)"

text \<open>
  Opening \<open>dst\<close> for writing and writing \<open>c\<close>: the file is created or truncated and
  stamped with the clock. A write that breaks off leaves the bytes written so far.
\<close>

definition write_bytes :: "io_env \<Rightarrow> disk \<Rightarrow> path \<Rightarrow> string \<Rightarrow> py_error option \<times> disk" where
  "write_bytes E d dst c =
     (if map_of d dst = Some Dir then (Some IsADirectoryError, d)
      else if unwritable E dst then (Some PermissionError, d)
      else (case write_cut E dst of
              Some n \<Rightarrow> (Some OSError, AList.update dst (File (take n c) (now E)) d)
            | None \<Rightarrow> (None, AList.update dst (File c (now E)) d)))"

text \<open>\<open>shutil.copyfile(src, dst)\<close>: the source is opened first, then the destination.\<close>

definition copyfile :: "io_env \<Rightarrow> disk \<Rightarrow> path \<Rightarrow> path \<Rightarrow> py_error option \<times> disk" where
  "copyfile E d src dst =
     (if src = dst \<and> path_exists d src then (Some SameFileError, d)
      else (case read_bytes E d src of
              Inl e \<Rightarrow> (Some e, d)
            | Inr c \<Rightarrow> write_bytes E d dst c))"

text \<open>
  \<open>shutil.copy2(src, dst)\<close>: into \<open>dst\<close> when that is a directory, and the source's
  modification time is copied along with the bytes.
\<close>

definition copy2 :: "io_env \<Rightarrow> disk \<Rightarrow> path \<Rightarrow> path \<Rightarrow> py_error option \<times> disk" where
  "copy2 E d src dst =
     (let dst' = (if map_of d dst = Some Dir then dst @ [path_name src] else dst)
      in case copyfile E d src dst' of
           (Some e, d') \<Rightarrow> (Some e, d')
         | (None, d') \<Rightarrow>
             (case map_of d src of
                Some (File c m) \<Rightarrow> (None, AList.update dst' (File c m) d')
              | _ \<Rightarrow> (None, d')))"


text \<open>
  \<open>os.replace(src, dst)\<close> for a file \<open>src\<close>: \<open>dst\<close> becomes the node of \<open>src\<close>, in one
  step, and \<open>src\<close> is gone.
\<close>

definition os_replace :: "io_env \<Rightarrow> disk \<Rightarrow> path \<Rightarrow> path \<Rightarrow> py_error option \<times> disk" where
  "os_replace E d src dst =
     (case map_of d src of
        None \<Rightarrow> (Some FileNotFoundError, d)
      | Some Dir \<Rightarrow> (Some IsADirectoryError, d)
      | Some (File c m) \<Rightarrow>
          if map_of d dst = Some Dir then (Some IsADirectoryError, d)
          else if replace_fails E src dst then (Some PermissionError, d)
          else (None, AList.update dst (File c m) (AList.delete src d)))"

text \<open>\<open>p.unlink()\<close>; every error it raises is an \<open>OSError\<close>.\<close>

definition unlink :: "io_env \<Rightarrow> disk \<Rightarrow> path \<Rightarrow> py_error option \<times> disk" where
  "unlink E d p =
     (case map_of d p of
        None \<Rightarrow> (Some FileNotFoundError, d)
      | Some Dir \<Rightarrow> (Some IsADirectoryError, d)
      | Some (File c m) \<Rightarrow>
          if unlink_fails E p then (Some PermissionError, d) else (None, AList.delete p d))"

text \<open>\<open>p.mkdir(parents=True, exist_ok=True)\<close>, over the prefixes of \<open>p\<close> from the top.\<close>

fun mkdirs :: "disk \<Rightarrow> path \<Rightarrow> path list \<Rightarrow> py_error option \<times> disk" where
  "mkdirs d p [] = (None, d)"
| "mkdirs d p (q # qs) =
     (case map_of d q of
        None \<Rightarrow> mkdirs (AList.update q Dir d) p qs
      | Some Dir \<Rightarrow> mkdirs d p qs
      | Some (File c m) \<Rightarrow> (Some (if q = p then FileExistsError else NotADirectoryError), d))"

definition mkdir_parents :: "disk \<Rightarrow> path \<Rightarrow> py_error option \<times> disk" where
  "mkdir_parents d p = mkdirs d p (map (\<lambda>i. take i p) [1..<Suc (length p)])"

text \<open>
  \<open>target.with_suffix(target.suffix + ".tmp")\<close>: pathlib cuts the old suffix off the
  name and appends the new one.
\<close>

definition with_suffix :: "path \<Rightarrow> string \<Rightarrow> path" where
  "with_suffix p suffix =
     (let name = path_name p; old_suffix = py_suffix name
      in butlast p @ [take (length name - length old_suffix) name @ suffix])"

definition tmp_of :: "path \<Rightarrow> path" where
  "tmp_of target = with_suffix target (py_suffix (path_name target) @ ''.tmp'')"

text \<open>
  The \<open>try\<close> block of a restore, \<open>copyfile(backup_file, tmp); os.replace(tmp, target)\<close>,
  with the \<open>finally\<close> block that both restorers attach to it: the temporary file is
  unlinked if it is still there, and an \<open>OSError\<close> of that unlink is swallowed.
\<close>

definition finally_unlink :: "io_env \<Rightarrow> disk \<Rightarrow> path \<Rightarrow> disk" where
  "finally_unlink E d tmp = (if path_exists d tmp then snd (unlink E d tmp) else d)"

definition copy_then_replace ::
  "io_env \<Rightarrow> disk \<Rightarrow> path \<Rightarrow> path \<Rightarrow> path \<Rightarrow> py_error option \<times> disk" where
  "copy_then_replace E d backup_file tmp target =
     (case copyfile E d backup_file tmp of
        (Some e, d1) \<Rightarrow> (Some e, d1)
      | (None, d1) \<Rightarrow> os_replace E d1 tmp target)"

text \<open>
  Writing an archive: \<open>ZipFile(zip_path, "w")\<close> creates the archive file, then the
  files are collected (by then the archive exists, and a walk over a folder that
  contains it lists it too), then \<open>zf.write\<close> runs once per file. \<open>zf.write\<close> takes
  the file's status first and refuses a modification time before 1980 with
  \<open>ValueError\<close>; then it reads the file. The archive is a file whose bytes the archiver
  decides from its entries, the arcname and the bytes of each file; an entry for the
  archive itself holds what is on disk of it at that moment. A failure stops the
  writing with the entries before it in the archive. The result also gives the
  entries that were written.
\<close>

fun zip_entries ::
  "io_env \<Rightarrow> disk \<Rightarrow> path \<Rightarrow> (path \<times> string) list \<Rightarrow> (path \<times> path) list
     \<Rightarrow> py_error option \<times> (path \<times> string) list" where
  "zip_entries E d zip_path written [] = (None, written)"
| "zip_entries E d zip_path written ((arcname, p) # rest) =
     (case st_mtime d p of
        Inl e \<Rightarrow> (Some e, written)
      | Inr m \<Rightarrow>
          if before_1980 E m then (Some ValueError, written)
          else if p = zip_path then
            zip_entries E d zip_path (written @ [(arcname, zip_partial E written)]) rest
          else (case read_bytes E d p of
                  Inl e \<Rightarrow> (Some e, written)
                | Inr c \<Rightarrow> zip_entries E d zip_path (written @ [(arcname, c)]) rest))"

definition open_zip :: "io_env \<Rightarrow> disk \<Rightarrow> path \<Rightarrow> py_error option \<times> disk" where
  "open_zip E d zip_path =
     (if map_of d zip_path = Some Dir then (Some IsADirectoryError, d)
      else if unwritable E zip_path then (Some PermissionError, d)
      else (None, AList.update zip_path (File (zip_partial E []) (now E)) d))"

definition write_zip ::
  "io_env \<Rightarrow> disk \<Rightarrow> path \<Rightarrow> (disk \<Rightarrow> (path \<times> path) list)
     \<Rightarrow> py_error option \<times> disk \<times> (path \<times> string) list" where
  "write_zip E d zip_path files =
     (case open_zip E d zip_path of
        (Some e, d0) \<Rightarrow> (Some e, d0, [])
      | (None, d0) \<Rightarrow>
          (case zip_entries E d0 zip_path [] (files d0) of
             (Some e, es) \<Rightarrow>
               (Some e, AList.update zip_path (File (zip_partial E es) (now E)) d0, es)
           | (None, es) \<Rightarrow>
               (case write_cut E zip_path of
                  Some n \<Rightarrow>
                    (Some OSError,
                     AList.update zip_path (File (take n (zip_bytes E es)) (now E)) d0, es)
                | None \<Rightarrow>
                    (None, AList.update zip_path (File (zip_bytes E es) (now E)) d0, es))))"

text \<open>
  The files under \<open>src_dir\<close> with their paths relative to it, as the \<open>os.walk\<close> loops of
  the two restorers collect them.
\<close>

definition walk_files :: "disk \<Rightarrow> path \<Rightarrow> (path \<times> path) list" where
  "walk_files d src_dir =
     [(drop (length src_dir) p, p). p \<leftarrow> map fst d, below src_dir p \<and> is_file d p]"

section \<open>The two file-tree restorers\<close>

text \<open>
  \<open>Settings\<close> of both restorers: \<open>input_dir\<close> is the live directory, \<open>bms_config_dir\<close>
  in \<open>bms_restore\<close> and \<open>dcs_input_dir\<close> in \<open>dcs_restore\<close>.
\<close>

record settings =
  input_dir :: path
  backup_dir :: path
  zip_name_prefix :: string
  zip_destination :: string
  copy_if_missing :: bool

text \<open>
  The lines a run prints; the archive line also carries the entries written. \<open>MISS\<close>
  is the line of \<open>bms_restore\<close> with the key; \<open>dcs_restore\<close> prints the missing folder,
  the device with its folder, or the missing file, as relative paths.
\<close>

datatype line =
    WARN path | ZIP path "(path \<times> string) list" | COPY path | MISS string
  | MISS_FOLDER path | MISS_DEVICE string path | MISS_FILE path | OK path
  | FIX path | DRYRUN path | SUMMARY nat nat nat "nat option"

text \<open>
  The state of a pass: the disk, the counters (local variables of the pass;
  \<open>copied_missing\<close> exists in \<open>dcs_restore\<close> only) and the lines printed so far.
\<close>

record run =
  disk :: disk
  restored :: nat
  identical :: nat
  missing :: nat
  copied_missing :: nat
  out :: "line list"

definition say :: "line \<Rightarrow> run \<Rightarrow> run" where
  "say l st = st\<lparr>out := out st @ [l]\<rparr>"

subsection \<open>\<open>bms_restore\<close>\<close>

text \<open>
  \<open>list_xml_files\<close>. \<open>sorted\<close> orders the paths component by component, by code point
  (the order of POSIX paths).
\<close>

definition list_xml_files :: "disk \<Rightarrow> path \<Rightarrow> py_error + path list" where
  "list_xml_files d folder =
     (if \<not> path_exists d folder then Inr []
      else (case iterdir d folder of
              Inl e \<Rightarrow> Inl e
            | Inr ps \<Rightarrow>
                Inr (sort [p \<leftarrow> ps. is_file d p \<and> ascii_lower (py_suffix (path_name p)) = ''.xml''])))"

text \<open>\<open>idx.setdefault(k, []).append(p)\<close> on a dictionary kept in insertion order.\<close>

definition index_append ::
  "string \<Rightarrow> path \<Rightarrow> (string \<times> path list) list \<Rightarrow> (string \<times> path list) list" where
  "index_append k p idx =
     (case map_of idx k of
        None \<Rightarrow> AList.update k [p] idx
      | Some ps \<Rightarrow> AList.update k (ps @ [p]) idx)"

definition build_index :: "disk \<Rightarrow> path \<Rightarrow> py_error + (string \<times> path list) list" where
  "build_index d folder =
     (case list_xml_files d folder of
        Inl e \<Rightarrow> Inl e
      | Inr ps \<Rightarrow> Inr (foldl (\<lambda>idx p. index_append (normalize_key (path_name p)) p idx) [] ps))"

text \<open>
  \<open>choose_target\<close>, the same in both restorers. \<open>max\<close> keeps the first of the largest
  and raises \<open>ValueError\<close> on an empty list.
\<close>

fun max_mtime :: "disk \<Rightarrow> path \<Rightarrow> int \<Rightarrow> path list \<Rightarrow> py_error + path" where
  "max_mtime d best mb [] = Inr best"
| "max_mtime d best mb (p # ps) =
     (case st_mtime d p of
        Inl e \<Rightarrow> Inl e
      | Inr m \<Rightarrow> if mb < m then max_mtime d p m ps else max_mtime d best mb ps)"

definition choose_target :: "disk \<Rightarrow> path list \<Rightarrow> py_error + path" where
  "choose_target d paths =
     (case paths of
        [] \<Rightarrow> Inl ValueError
      | [p] \<Rightarrow> Inr p
      | p # ps \<Rightarrow> (case st_mtime d p of Inl e \<Rightarrow> Inl e | Inr m \<Rightarrow> max_mtime d p m ps))"

text \<open>
  \<open>make_zip_of_bms_config\<close> and \<open>zip_entire_folder\<close>: the destination directory is made,
  then the archive is created and every file under the source directory goes into it.
\<close>

definition zip_entire_folder ::
  "io_env \<Rightarrow> path \<Rightarrow> path \<Rightarrow> string \<Rightarrow> run \<Rightarrow> py_error option \<times> run" where
  "zip_entire_folder E src_dir dest_dir prefix st =
     (case mkdir_parents (disk st) dest_dir of
        (Some e, d1) \<Rightarrow> (Some e, st\<lparr>disk := d1\<rparr>)
      | (None, d1) \<Rightarrow>
          (let zip_path = dest_dir @ [prefix @ ''.'' @ zip_stamp E @ ''.zip'']
           in case write_zip E d1 zip_path (\<lambda>d0. walk_files d0 src_dir) of
                (Some e, d2, es) \<Rightarrow> (Some e, st\<lparr>disk := d2\<rparr>)
              | (None, d2, es) \<Rightarrow> (None, say (ZIP zip_path es) (st\<lparr>disk := d2\<rparr>))))"

definition make_zip_of_bms_config :: "io_env \<Rightarrow> settings \<Rightarrow> run \<Rightarrow> py_error option \<times> run" where
  "make_zip_of_bms_config E S st =
     zip_entire_folder E (input_dir S)
       (if zip_destination S = ''backup_dir'' then backup_dir S else input_dir S)
       (zip_name_prefix S) st"

text \<open>
  The restore of one target in \<open>restore_from_backups\<close>: the \<open>try\<close> block with its
  \<open>finally\<close>. The counter and the line come after the rename, inside the \<open>try\<close>.
\<close>

definition bms_replace :: "io_env \<Rightarrow> path \<Rightarrow> path \<Rightarrow> run \<Rightarrow> py_error option \<times> run" where
  "bms_replace E backup_file target st =
     (let tmp = tmp_of target
      in case copy_then_replace E (disk st) backup_file tmp target of
           (Some e, d') \<Rightarrow> (Some e, st\<lparr>disk := finally_unlink E d' tmp\<rparr>)
         | (None, d') \<Rightarrow>
             (None, say (FIX target)
                      (st\<lparr>disk := finally_unlink E d' tmp, restored := restored st + 1\<rparr>)))"

text \<open>The body of the loop of \<open>restore_from_backups\<close>, for one key of the backup index.\<close>

definition restore_key ::
  "io_env \<Rightarrow> settings \<Rightarrow> (string \<times> path list) list \<Rightarrow> string \<times> path list \<Rightarrow> run
     \<Rightarrow> py_error option \<times> run" where
  "restore_key E S bms_index kv st =
     (case choose_target (disk st) (snd kv) of
        Inl e \<Rightarrow> (Some e, st)
      | Inr backup_file \<Rightarrow>
          (case (case map_of bms_index (fst kv) of None \<Rightarrow> [] | Some ts \<Rightarrow> ts) of
             [] \<Rightarrow>
               (let st1 = st\<lparr>missing := missing st + 1\<rparr>
                in if copy_if_missing S then
                     (let dest = input_dir S @ [path_name backup_file]
                      in case copy2 E (disk st1) backup_file dest of
                           (Some e, d') \<Rightarrow> (Some e, st1\<lparr>disk := d'\<rparr>)
                         | (None, d') \<Rightarrow> (None, say (COPY dest) (st1\<lparr>disk := d'\<rparr>)))
                   else (None, say (MISS (fst kv)) st1))
           | t # ts \<Rightarrow>
               (case choose_target (disk st) (t # ts) of
                  Inl e \<Rightarrow> (Some e, st)
                | Inr target \<Rightarrow>
                    (case sha256_file E (disk st) backup_file of
                       Inl e \<Rightarrow> (Some e, st)
                     | Inr hb \<Rightarrow>
                         (case sha256_file E (disk st) target of
                            Inl e \<Rightarrow> (Some e, st)
                          | Inr ht \<Rightarrow>
                              if hb = ht then
                                (None, say (OK target) (st\<lparr>identical := identical st + 1\<rparr>))
                              else bms_replace E backup_file target st)))))"

text \<open>A \<open>for\<close> loop whose body may raise: the first exception ends it.\<close>

fun for_each :: "('a \<Rightarrow> run \<Rightarrow> py_error option \<times> run) \<Rightarrow> 'a list \<Rightarrow> run \<Rightarrow> py_error option \<times> run" where
  "for_each body [] st = (None, st)"
| "for_each body (x # xs) st =
     (case body x st of
        (Some e, st') \<Rightarrow> (Some e, st')
      | (None, st') \<Rightarrow> for_each body xs st')"

definition summary :: "bool \<Rightarrow> run \<Rightarrow> run" where
  "summary with_copied st =
     say (SUMMARY (restored st) (identical st) (missing st)
            (if with_copied then Some (copied_missing st) else None)) st"

definition fresh :: "run \<Rightarrow> run" where
  "fresh st = st\<lparr>restored := 0, identical := 0, missing := 0, copied_missing := 0\<rparr>"

text \<open>\<open>bms_restore.restore_from_backups\<close>.\<close>

definition restore_from_backups :: "io_env \<Rightarrow> settings \<Rightarrow> run \<Rightarrow> py_error option \<times> run" where
  "restore_from_backups E S st =
     (if \<not> path_exists (disk st) (backup_dir S) then (None, say (WARN (backup_dir S)) st)
      else if \<not> path_exists (disk st) (input_dir S) then (Some FileNotFoundError, st)
      else (case build_index (disk st) (backup_dir S) of
              Inl e \<Rightarrow> (Some e, st)
            | Inr backup_index \<Rightarrow>
                (case build_index (disk st) (input_dir S) of
                   Inl e \<Rightarrow> (Some e, st)
                 | Inr bms_index \<Rightarrow>
                     (case for_each (restore_key E S bms_index) backup_index (fresh st) of
                        (Some e, st') \<Rightarrow> (Some e, st')
                      | (None, st') \<Rightarrow> (None, summary False st')))))"

text \<open>\<open>bms_restore.main\<close>, from the settings on.\<close>

definition bms_main :: "io_env \<Rightarrow> settings \<Rightarrow> run \<Rightarrow> py_error option \<times> run" where
  "bms_main E S st =
     (if \<not> path_exists (disk st) (input_dir S) then (Some FileNotFoundError, st)
      else (let st0 = (if \<not> path_exists (disk st) (backup_dir S)
                       then say (WARN (backup_dir S)) st else st)
            in case make_zip_of_bms_config E S st0 of
                 (Some e, st1) \<Rightarrow> (Some e, st1)
               | (None, st1) \<Rightarrow> restore_from_backups E S st1))"

subsection \<open>\<open>dcs_restore\<close>\<close>

text \<open>
  The restore of one target in \<open>restore_dcs\<close>. In a dry run the \<open>try\<close> block only
  prints, but the counter is incremented all the same and the \<open>finally\<close> block runs
  all the same.
\<close>

definition dcs_replace ::
  "io_env \<Rightarrow> bool \<Rightarrow> path \<Rightarrow> path \<Rightarrow> run \<Rightarrow> py_error option \<times> run" where
  "dcs_replace E dry_run backup_file target_file st =
     (let tmp = tmp_of target_file
      in if dry_run then
           (None, (say (DRYRUN target_file) st)
                    \<lparr>disk := finally_unlink E (disk st) tmp, restored := restored st + 1\<rparr>)
         else
           (case copy_then_replace E (disk st) backup_file tmp target_file of
              (Some e, d') \<Rightarrow> (Some e, st\<lparr>disk := finally_unlink E d' tmp\<rparr>)
            | (None, d') \<Rightarrow>
                (None, (say (FIX target_file) st)
                         \<lparr>disk := finally_unlink E d' tmp, restored := restored st + 1\<rparr>)))"

text \<open>The candidates of a key in the target folder, in the order of \<open>iterdir\<close>.\<close>

definition dcs_candidates :: "disk \<Rightarrow> path \<Rightarrow> string \<Rightarrow> py_error + path list" where
  "dcs_candidates d target_parent key =
     (case iterdir d target_parent of
        Inl e \<Rightarrow> Inl e
      | Inr ps \<Rightarrow>
          Inr [p \<leftarrow> ps. is_file d p \<and> last2 (py_suffixes (path_name p)) = [''.diff'', ''.lua'']
                       \<and> normalize_guid_filename (path_name p) = key])"

text \<open>
  Comparing and restoring once a target file is chosen: the same lines in the GUID
  branch and in the branch of exact relative paths, which prints a second \<open>FIX\<close> line.
\<close>

definition dcs_compare ::
  "io_env \<Rightarrow> bool \<Rightarrow> bool \<Rightarrow> path \<Rightarrow> path \<Rightarrow> run \<Rightarrow> py_error option \<times> run" where
  "dcs_compare E dry_run second_line backup_file target_file st =
     (case sha256_file E (disk st) backup_file of
        Inl e \<Rightarrow> (Some e, st)
      | Inr hb \<Rightarrow>
          (case sha256_file E (disk st) target_file of
             Inl e \<Rightarrow> (Some e, st)
           | Inr ht \<Rightarrow>
               if hb = ht then (None, say (OK target_file) (st\<lparr>identical := identical st + 1\<rparr>))
               else if second_line then
                 (let tmp = tmp_of target_file
                  in if dry_run then
                       (None, (say (FIX target_file) (say (DRYRUN target_file) st))
                                \<lparr>disk := finally_unlink E (disk st) tmp,
                                 restored := restored st + 1\<rparr>)
                     else
                       (case copy_then_replace E (disk st) backup_file tmp target_file of
                          (Some e, d') \<Rightarrow> (Some e, st\<lparr>disk := finally_unlink E d' tmp\<rparr>)
                        | (None, d') \<Rightarrow>
                            (None, (say (FIX target_file) (say (FIX target_file) st))
                                     \<lparr>disk := finally_unlink E d' tmp,
                                      restored := restored st + 1\<rparr>)))
               else dcs_replace E dry_run backup_file target_file st))"

text \<open>A missing target: counted, and copied when \<open>copy_if_missing\<close> is set.\<close>

definition dcs_missing ::
  "io_env \<Rightarrow> settings \<Rightarrow> path \<Rightarrow> path \<Rightarrow> line \<Rightarrow> run \<Rightarrow> py_error option \<times> run" where
  "dcs_missing E S backup_file dest miss st =
     (let st1 = st\<lparr>missing := missing st + 1\<rparr>
      in if copy_if_missing S then
           (case copy2 E (disk st1) backup_file dest of
              (Some e, d') \<Rightarrow> (Some e, st1\<lparr>disk := d'\<rparr>)
            | (None, d') \<Rightarrow>
                (None, say (COPY dest) (st1\<lparr>disk := d', copied_missing := copied_missing st1 + 1\<rparr>)))
         else (None, say miss st1))"

text \<open>The body of the loop of \<open>restore_dcs\<close>, for one path of the backup tree.\<close>

definition dcs_step ::
  "io_env \<Rightarrow> settings \<Rightarrow> bool \<Rightarrow> path \<Rightarrow> run \<Rightarrow> py_error option \<times> run" where
  "dcs_step E S dry_run backup_file st =
     (let name = path_name backup_file;
          is_guid_diff = (last2 (py_suffixes name) = [''.diff'', ''.lua'']
                          \<and> GUID_DIFF_RE name \<noteq> None)
      in if \<not> is_file (disk st) backup_file then (None, st)
         else if ascii_lower (py_suffix name) = ''.zip'' then (None, st)
         else if last2 (py_suffixes name) \<noteq> [''.diff'', ''.lua''] then (None, st)
         else if GUID_DIFF_RE name = None then (None, st)
         else if ascii_lower (path_name (butlast backup_file)) \<noteq> ''joystick'' then (None, st)
         else
           (let rel = drop (length (backup_dir S)) backup_file;
                target_parent = input_dir S @ butlast rel
            in if \<not> path_exists (disk st) target_parent then
                 (if copy_if_missing S then
                    (case mkdir_parents (disk st) target_parent of
                       (Some e, d') \<Rightarrow> (Some e, st\<lparr>disk := d', missing := missing st + 1\<rparr>)
                     | (None, d') \<Rightarrow>
                         dcs_missing E S backup_file (input_dir S @ rel)
                           (MISS_FOLDER (butlast rel)) (st\<lparr>disk := d'\<rparr>))
                  else dcs_missing E S backup_file (input_dir S @ rel)
                         (MISS_FOLDER (butlast rel)) st)
               else if is_guid_diff then
                 (let key = normalize_guid_filename name
                  in case dcs_candidates (disk st) target_parent key of
                       Inl e \<Rightarrow> (Some e, st)
                     | Inr [] \<Rightarrow>
                         dcs_missing E S backup_file (target_parent @ [name])
                           (MISS_DEVICE key (butlast rel)) st
                     | Inr (c # cs) \<Rightarrow>
                         (case choose_target (disk st) (c # cs) of
                            Inl e \<Rightarrow> (Some e, st)
                          | Inr target_file \<Rightarrow>
                              dcs_compare E dry_run False backup_file target_file st))
               else
                 (let target_file = input_dir S @ rel
                  in if \<not> path_exists (disk st) target_file then
                       dcs_missing E S backup_file target_file (MISS_FILE rel) st
                     else dcs_compare E dry_run True backup_file target_file st)))"

text \<open>\<open>dcs_restore.restore_dcs\<close>.\<close>

definition restore_dcs :: "io_env \<Rightarrow> settings \<Rightarrow> bool \<Rightarrow> run \<Rightarrow> py_error option \<times> run" where
  "restore_dcs E S dry_run st =
     (if \<not> path_exists (disk st) (backup_dir S) then (Some FileNotFoundError, st)
      else if \<not> path_exists (disk st) (input_dir S) then (Some FileNotFoundError, st)
      else (case for_each (dcs_step E S dry_run) (sort (rglob_all (disk st) (backup_dir S)))
                   (fresh st) of
              (Some e, st') \<Rightarrow> (Some e, st')
            | (None, st') \<Rightarrow> (None, summary (copy_if_missing S) st')))"

text \<open>
  \<open>dcs_restore.main\<close>, from the settings and the chosen mode on: the archive goes one
  level above the backup directory, and only when the run is not a dry run.
\<close>

definition dcs_main :: "io_env \<Rightarrow> settings \<Rightarrow> bool \<Rightarrow> run \<Rightarrow> py_error option \<times> run" where
  "dcs_main E S dry_run st =
     (if \<not> dry_run then
        (let dest_dir = butlast (backup_dir S)
         in case mkdir_parents (disk st) dest_dir of
              (Some e, d1) \<Rightarrow> (Some e, st\<lparr>disk := d1\<rparr>)
            | (None, d1) \<Rightarrow>
                (case zip_entire_folder E (input_dir S) dest_dir (zip_name_prefix S)
                        (st\<lparr>disk := d1\<rparr>) of
                   (Some e, st1) \<Rightarrow> (Some e, st1)
                 | (None, st1) \<Rightarrow> restore_dcs E S dry_run st1))
      else restore_dcs E S dry_run st)"



section \<open>The document remapper \<open>okb_update_directinput_guids\<close>\<close>

text \<open>
  A parsed JSON document. An object is the list of its members in the order of the
  dictionary; a float is kept as mantissa and binary exponent, which is enough for its
  truth value.
\<close>

datatype json =
    JNull | JBool bool | JInt int | JFloat int int | JStr string
  | JArr "json list" | JObj "(string \<times> json) list"

text \<open>
  The library functions the remapper calls and this development leaves open:
  \<open>json.loads\<close> on the bytes of a file (\<open>None\<close> when decoding or parsing raises),
  \<open>json.dumps(_, indent=2)\<close>, \<open>str\<close> of a value that is no string, \<open>str.upper\<close> and
  \<open>str.casefold\<close>.
\<close>

record py_lib =
  json_loads :: "string \<Rightarrow> json option"
  json_dumps :: "json \<Rightarrow> string"
  py_repr :: "json \<Rightarrow> string"
  str_upper :: "string \<Rightarrow> string"
  str_casefold :: "string \<Rightarrow> string"

text \<open>The truth value of a Python object that came out of \<open>json.loads\<close>.\<close>

definition truthy :: "json \<Rightarrow> bool" where
  "truthy v =
     (case v of
        JNull \<Rightarrow> False | JBool b \<Rightarrow> b | JInt n \<Rightarrow> n \<noteq> 0 | JFloat m e \<Rightarrow> m \<noteq> 0
      | JStr s \<Rightarrow> s \<noteq> [] | JArr xs \<Rightarrow> xs \<noteq> [] | JObj kvs \<Rightarrow> kvs \<noteq> [])"

definition py_str :: "py_lib \<Rightarrow> json \<Rightarrow> string" where
  "py_str L v = (case v of JStr s \<Rightarrow> s | _ \<Rightarrow> py_repr L v)"

text \<open>\<open>s.split()\<close>: the maximal runs of characters that are no whitespace.\<close>

fun split_ws :: "string \<Rightarrow> string \<Rightarrow> string list" where
  "split_ws cur [] = (if cur = [] then [] else [cur])"
| "split_ws cur (c # cs) =
     (if py_isspace c then (if cur = [] then split_ws [] cs else cur # split_ws [] cs)
      else split_ws (cur @ [c]) cs)"

text \<open>\<open>" ".join(ws)\<close>.\<close>

fun join_space :: "string list \<Rightarrow> string" where
  "join_space [] = []"
| "join_space [w] = w"
| "join_space (w # ws) = w @ '' '' @ join_space ws"

text \<open>\<open>normalize_name\<close>, with both module switches on as the module sets them.\<close>

definition normalize_name :: "py_lib \<Rightarrow> string \<Rightarrow> string" where
  "normalize_name L name = str_casefold L (join_space (split_ws [] name))"

text \<open>The Live Registry: \<open>(Kind, normalized name)\<close> to the GUIDs enumerated for it.\<close>

type_synonym device_map = "string \<times> string \<Rightarrow> string list option"

record change =
  ch_kind :: string
  ch_name :: string
  from_key :: string
  from_id :: string
  to_guid :: string

record plan =
  plan_file :: path
  changes :: "change list"
  new_data :: "(string \<times> json) list"

text \<open>\<open>entry.get(k)\<close>, \<open>None\<close> being \<open>JNull\<close>.\<close>

definition dict_get :: "(string \<times> json) list \<Rightarrow> string \<Rightarrow> json" where
  "dict_get e k = (case map_of e k of None \<Rightarrow> JNull | Some v \<Rightarrow> v)"

text \<open>
  One turn of the loop over \<open>devices.items()\<close>: the key and the value stored in
  \<open>new_devices\<close>, and the change recorded, if any. A name that is no string has no
  \<open>split\<close>; a kind that is a list or a dictionary cannot be hashed for the lookup; any
  other kind that is no string equals no kind of the registry.
\<close>

definition plan_entry ::
  "py_lib \<Rightarrow> device_map \<Rightarrow> string \<Rightarrow> json \<Rightarrow> py_error + (string \<times> json \<times> change list)" where
  "plan_entry L device_map old_guid entry =
     (case entry of
        JObj e \<Rightarrow>
          (let kind = dict_get e ''Kind'';
               name = dict_get e ''Name'';
               old_id = (case map_of e ''ID'' of None \<Rightarrow> JStr old_guid | Some v \<Rightarrow> v)
           in if \<not> truthy kind \<or> \<not> truthy name then Inr (old_guid, entry, [])
              else
                (case name of
                   JStr nm \<Rightarrow>
                     (case kind of
                        JArr xs \<Rightarrow> Inl TypeError
                      | JObj kvs \<Rightarrow> Inl TypeError
                      | JStr k \<Rightarrow>
                          (case device_map (k, normalize_name L nm) of
                             None \<Rightarrow> Inr (old_guid, entry, [])
                           | Some [] \<Rightarrow> Inr (old_guid, entry, [])
                           | Some (new_guid # others) \<Rightarrow>
                               (let old_key_u = str_upper L (py_str L (JStr old_guid));
                                    old_id_u = str_upper L (py_str L old_id)
                                in Inr (new_guid,
                                        JObj (AList.update ''ID'' (JStr new_guid) e),
                                        if old_key_u \<noteq> new_guid \<or> old_id_u \<noteq> new_guid
                                        then [\<lparr>ch_kind = k, ch_name = nm, from_key = old_key_u,
                                               from_id = old_id_u, to_guid = new_guid\<rparr>]
                                        else [])))
                      | _ \<Rightarrow> Inr (old_guid, entry, []))
                 | _ \<Rightarrow> Inl AttributeError))
      | _ \<Rightarrow> Inr (old_guid, entry, []))"

fun plan_loop ::
  "py_lib \<Rightarrow> device_map \<Rightarrow> (string \<times> json) list \<Rightarrow> (string \<times> json) list \<times> change list
     \<Rightarrow> py_error + (string \<times> json) list \<times> change list" where
  "plan_loop L device_map [] acc = Inr acc"
| "plan_loop L device_map ((old_guid, entry) # rest) (new_devices, chs) =
     (case plan_entry L device_map old_guid entry of
        Inl e \<Rightarrow> Inl e
      | Inr (k, v, c) \<Rightarrow> plan_loop L device_map rest (AList.update k v new_devices, chs @ c))"

text \<open>
  \<open>build_plan_for_file\<close> on the parsed document: \<open>data.get\<close> exists on a dictionary
  only, and is called outside the \<open>try\<close>.
\<close>

definition plan_for_data ::
  "py_lib \<Rightarrow> device_map \<Rightarrow> path \<Rightarrow> json \<Rightarrow> py_error + plan option" where
  "plan_for_data L device_map p data =
     (case data of
        JObj members \<Rightarrow>
          (case (case map_of members ''Devices'' of None \<Rightarrow> JObj [] | Some v \<Rightarrow> v) of
             JObj devices \<Rightarrow>
               (case plan_loop L device_map devices ([], []) of
                  Inl e \<Rightarrow> Inl e
                | Inr (new_devices, chs) \<Rightarrow>
                    if chs = [] then Inr None
                    else Inr (Some \<lparr>plan_file = p, changes = chs,
                                     new_data = AList.update ''Devices'' (JObj new_devices) members\<rparr>))
           | _ \<Rightarrow> Inr None)
      | _ \<Rightarrow> Inl AttributeError)"

text \<open>
  \<open>build_plan_for_file\<close>: reading and parsing are inside the \<open>try\<close>, whose handler
  returns \<open>None\<close> for every exception.
\<close>

definition build_plan_for_file ::
  "py_lib \<Rightarrow> io_env \<Rightarrow> disk \<Rightarrow> path \<Rightarrow> device_map \<Rightarrow> py_error + plan option" where
  "build_plan_for_file L E d p device_map =
     (case read_bytes E d p of
        Inl e \<Rightarrow> Inr None
      | Inr text \<Rightarrow>
          (case json_loads L text of
             None \<Rightarrow> Inr None
           | Some data \<Rightarrow> plan_for_data L device_map p data))"

text \<open>The loop of \<open>main\<close> that collects the plans.\<close>

fun collect_plans ::
  "py_lib \<Rightarrow> io_env \<Rightarrow> disk \<Rightarrow> device_map \<Rightarrow> path list \<Rightarrow> py_error + plan list" where
  "collect_plans L E d device_map [] = Inr []"
| "collect_plans L E d device_map (f # fs) =
     (case build_plan_for_file L E d f device_map of
        Inl e \<Rightarrow> Inl e
      | Inr r \<Rightarrow>
          (case collect_plans L E d device_map fs of
             Inl e \<Rightarrow> Inl e
           | Inr ps \<Rightarrow> Inr ((case r of None \<Rightarrow> [] | Some pl \<Rightarrow> [pl]) @ ps)))"

text \<open>
  \<open>p.write_text(json.dumps(new_data, indent=2) + "\n")\<close> for each plan; the first
  failure ends the loop.
\<close>

fun apply_plans :: "py_lib \<Rightarrow> io_env \<Rightarrow> plan list \<Rightarrow> disk \<Rightarrow> py_error option \<times> disk" where
  "apply_plans L E [] d = (None, d)"
| "apply_plans L E (pl # pls) d =
     (case write_bytes E d (plan_file pl) (json_dumps L (JObj (new_data pl)) @ [CHR 0x0A]) of
        (Some e, d') \<Rightarrow> (Some e, d')
      | (None, d') \<Rightarrow> apply_plans L E pls d')"

text \<open>What \<open>main\<close> of the remapper prints, as far as this development looks at it.\<close>

datatype okb_line =
    NoFiles | Planned "plan list" | NoChanges | BackupWritten path "(path \<times> string) list"
  | Applied | DryRunNote

text \<open>
  \<open>main\<close> of the remapper, after \<open>load_ini\<close> (which has made \<open>backup_root\<close>), the
  choice of the mode and the enumeration of the devices.
\<close>

definition ZIP_PREFIX :: string where
  "ZIP_PREFIX = ''okb_directinput''"

definition okb_main ::
  "py_lib \<Rightarrow> io_env \<Rightarrow> bool \<Rightarrow> path \<Rightarrow> path \<Rightarrow> device_map \<Rightarrow> disk
     \<Rightarrow> py_error option \<times> disk \<times> okb_line list" where
  "okb_main L E dry_run okb_root backup_root device_map d =
     (let json_files = sort [p \<leftarrow> rglob_all d okb_root. path_name p = ''DirectInput.json'']
      in if json_files = [] then (None, d, [NoFiles])
         else
           (case collect_plans L E d device_map json_files of
              Inl e \<Rightarrow> (Some e, d, [])
            | Inr plans \<Rightarrow>
                if plans = [] then (None, d, [Planned plans, NoChanges])
                else
                  (let zip_path = backup_root @ [ZIP_PREFIX @ ''_'' @ zip_stamp E @ ''.zip''];
                       files = map (\<lambda>pl. (drop (length okb_root) (plan_file pl), plan_file pl)) plans
                   in case write_zip E d zip_path (\<lambda>d0. files) of
                        (Some e, d1, es) \<Rightarrow> (Some e, d1, [Planned plans])
                      | (None, d1, es) \<Rightarrow>
                          if \<not> dry_run then
                            (case apply_plans L E plans d1 of
                               (Some e, d2) \<Rightarrow>
                                 (Some e, d2, [Planned plans, BackupWritten zip_path es])
                             | (None, d2) \<Rightarrow>
                                 (None, d2, [Planned plans, BackupWritten zip_path es, Applied]))
                          else (None, d1, [Planned plans, BackupWritten zip_path es, DryRunNote]))))"

text \<open>
  The specification's view of one record, to compare \<open>plan_entry\<close> with: a record is
  matched when its kind and its name are non-empty strings and the registry lists a
  GUID for the kind and the normalized name; the live GUID is the first one listed. A
  matched record is rewritten with that GUID as its \<open>ID\<close> and stored under that GUID;
  any other record is stored as it is under its own key.
\<close>

definition matched_guid :: "py_lib \<Rightarrow> device_map \<Rightarrow> json \<Rightarrow> string option" where
  "matched_guid L device_map entry =
     (case entry of
        JObj e \<Rightarrow>
          (case dict_get e ''Kind'' of
             JStr k \<Rightarrow>
               (case dict_get e ''Name'' of
                  JStr nm \<Rightarrow>
                    if k = [] \<or> nm = [] then None
                    else (case device_map (k, normalize_name L nm) of
                            Some (g # gs) \<Rightarrow> Some g
                          | _ \<Rightarrow> None)
                | _ \<Rightarrow> None)
           | _ \<Rightarrow> None)
      | _ \<Rightarrow> None)"

definition rewritten :: "string \<Rightarrow> json \<Rightarrow> json" where
  "rewritten g entry =
     (case entry of JObj e \<Rightarrow> JObj (AList.update ''ID'' (JStr g) e) | _ \<Rightarrow> entry)"

definition stored :: "py_lib \<Rightarrow> device_map \<Rightarrow> string \<times> json \<Rightarrow> string \<times> json" where
  "stored L device_map kv =
     (case matched_guid L device_map (snd kv) of
        Some g \<Rightarrow> (g, rewritten g (snd kv))
      | None \<Rightarrow> kv)"

text \<open>The path of the archive that \<open>main\<close> of the remapper writes.\<close>

definition okb_zip_path :: "io_env \<Rightarrow> path \<Rightarrow> path" where
  "okb_zip_path E backup_root = backup_root @ [ZIP_PREFIX @ ''_'' @ zip_stamp E @ ''.zip'']"

section \<open>A concrete environment and concrete trees\<close>

text \<open>
  An environment without failures, whose digest is the content itself, and the same
  environment with one failure put in.
\<close>

definition env0 :: io_env where
  "env0 = \<lparr>sha256 = (\<lambda>c. c), now = 1700001000, zip_stamp = ''2026-01-01_00-00-00'',
            zip_bytes = (\<lambda>es. concat (map snd es)),
            zip_partial = (\<lambda>es. []), before_1980 = (\<lambda>m. m < 315532800),
            unreadable = (\<lambda>p. False), unwritable = (\<lambda>p. False),
            write_cut = (\<lambda>p. None), replace_fails = (\<lambda>s t. False),
            unlink_fails = (\<lambda>p. False)\<rparr>"

definition run0 :: "disk \<Rightarrow> run" where
  "run0 d = \<lparr>disk = d, restored = 0, identical = 0, missing = 0, copied_missing = 0, out = []\<rparr>"

definition guid1 :: string where "guid1 = ''{11111111-1111-1111-1111-111111111111}''"
definition guid2 :: string where "guid2 = ''{22222222-2222-2222-2222-222222222222}''"
definition guid3 :: string where "guid3 = ''{33333333-3333-3333-3333-333333333333}''"

text \<open>
  The scenario of the specification for \<open>bms_restore\<close>: the backup holds
  \<open>Profile A {1111...}.xml\<close> with content \<open>X\<close>, the live directory holds
  \<open>Profile A {2222...}.xml\<close> with content \<open>Y\<close>; a second profile \<open>Profile B\<close> differs too.
\<close>

definition bms_settings :: settings where
  "bms_settings = \<lparr>input_dir = [''bms''], backup_dir = [''bak''], zip_name_prefix = ''config'',
                    zip_destination = ''backup_dir'', copy_if_missing = False\<rparr>"

definition bms_disk :: disk where
  "bms_disk =
     [([''bak''], Dir), ([''bms''], Dir),
      ([''bak'', ''Profile A '' @ guid1 @ ''.xml''], File ''X'' 1700000010),
      ([''bak'', ''Profile B '' @ guid1 @ ''.xml''], File ''P'' 1700000010),
      ([''bms'', ''Profile A '' @ guid2 @ ''.xml''], File ''Y'' 1700000020),
      ([''bms'', ''Profile B '' @ guid2 @ ''.xml''], File ''Q'' 1700000020)]"

text \<open>
  A tree for \<open>dcs_restore\<close>: one binding in the backup, its live counterpart under a
  new GUID with different content.
\<close>

definition dcs_settings :: settings where
  "dcs_settings = \<lparr>input_dir = [''dcs''], backup_dir = [''sav'', ''bak''], zip_name_prefix = ''config'',
                    zip_destination = ''backup_dir'', copy_if_missing = False\<rparr>"


text \<open>The environment in which every rename is refused, and one with an unreadable file.\<close>

definition env_no_rename :: io_env where
  "env_no_rename = env0\<lparr>replace_fails := (\<lambda>s t. True)\<rparr>"


definition bms_backup_A :: path where
  "bms_backup_A = [''bak'', ''Profile A '' @ guid1 @ ''.xml'']"

definition bms_live_A :: path where
  "bms_live_A = [''bms'', ''Profile A '' @ guid2 @ ''.xml'']"




text \<open>
  For the remapper: a library whose parser knows three documents, upper-casing and
  case folding on the ASCII letters, and a registry with one attached controller.
\<close>

definition ascii_upper :: "string \<Rightarrow> string" where
  "ascii_upper s =
     map (\<lambda>c. if CHR ''a'' \<le> c \<and> c \<le> CHR ''z'' then char_of (of_char c - (32::nat)) else c) s"

definition icp_record :: "string \<Rightarrow> string \<Rightarrow> string \<Rightarrow> (string \<times> json) list" where
  "icp_record g name note =
     [(''ID'', JStr g), (''Kind'', JStr ''GameController''), (''Name'', JStr name),
      (''Note'', JStr note)]"

definition doc_stale :: json where
  "doc_stale = JObj [(''Devices'', JObj [(guid1, JObj (icp_record guid1 ''WINWING  ICP'' ''a''))])]"

definition twin_devices :: "(string \<times> json) list" where
  "twin_devices =
     [(guid1, JObj (icp_record guid1 ''WINWING ICP'' ''first'')),
      (guid3, JObj (icp_record guid3 ''Winwing  ICP'' ''second'')),
      (''kbd'', JObj [(''Kind'', JStr ''Keyboard''), (''Name'', JStr ''Keyboard'')])]"

definition doc_twins :: json where
  "doc_twins = JObj [(''Devices'', JObj twin_devices)]"

definition lib0 :: py_lib where
  "lib0 = \<lparr>json_loads = (\<lambda>t. if t = ''stale'' then Some doc_stale
                              else if t = ''twins'' then Some doc_twins
                              else if t = ''list'' then Some (JObj [(''Devices'', JArr [])])
                              else None),
            json_dumps = (\<lambda>v. ''rewritten''), py_repr = (\<lambda>v. ''?''),
            str_upper = ascii_upper, str_casefold = ascii_lower\<rparr>"

definition registry0 :: device_map where
  "registry0 = (\<lambda>k. if k = (''GameController'', ''winwing icp'') then Some [guid2] else None)"

definition okb_disk :: disk where
  "okb_disk =
     [([''okb''], Dir), ([''okb'', ''a''], Dir), ([''okb'', ''b''], Dir), ([''okb'', ''c''], Dir),
      ([''okb'', ''a'', ''DirectInput.json''], File ''stale'' 1700000005),
      ([''okb'', ''b'', ''DirectInput.json''], File ''{ not json'' 1700000005),
      ([''okb'', ''c'', ''DirectInput.json''], File ''list'' 1700000005),
      ([''sav''], Dir)]"



text \<open>A disk with the two live directories and no backup directory.\<close>

definition live_only_disk :: disk where
  "live_only_disk = [([''bms''], Dir), ([''dcs''], Dir)]"



text \<open>
  A tree for \<open>dcs_restore\<close> in which the live directory has no \<open>joystick\<close> folder, and
  the settings with \<open>copy_if_missing\<close> switched on.
\<close>

definition dcs_disk_bare :: disk where
  "dcs_disk_bare =
     [([''sav''], Dir), ([''sav'', ''bak''], Dir), ([''sav'', ''bak'', ''joystick''], Dir),
      ([''dcs''], Dir),
      ([''sav'', ''bak'', ''joystick'', ''ICP '' @ guid1 @ ''.diff.lua''], File ''X'' 1700000010)]"

definition dcs_settings_copy :: settings where
  "dcs_settings_copy = dcs_settings\<lparr>copy_if_missing := True\<rparr>"

text \<open>The environment in which every rename and every unlink is refused.\<close>

definition env_locked :: io_env where
  "env_locked = env0\<lparr>replace_fails := (\<lambda>s t. True), unlink_fails := (\<lambda>p. True)\<rparr>"

section \<open>The key normalizers\<close>

lemma py_strip_append_ws:
  assumes "list_all py_isspace w"
  shows "py_strip (s @ w) = py_strip s"
proof (cases "\<forall>x\<in>set s. py_isspace x")
  case True
  have "\<forall>x\<in>set (s @ w). py_isspace x"
    using True assms by (auto simp: list_all_iff)
  then have a: "dropWhile py_isspace (s @ w) = []"
    by (simp only: dropWhile_eq_Nil_conv)
  have b: "dropWhile py_isspace s = []"
    using True by (simp only: dropWhile_eq_Nil_conv)
  show ?thesis by (simp only: py_strip_def a b)
next
  case False
  then have "dropWhile py_isspace (s @ w) = dropWhile py_isspace s @ w"
    by (auto simp: dropWhile_append)
  moreover from assms have "dropWhile py_isspace (rev w @ ys) = dropWhile py_isspace ys" for ys
    by (induction w arbitrary: ys) (auto simp: dropWhile_append)
  ultimately show ?thesis by (simp add: py_strip_def)
qed

lemma stem_search_finds:
  assumes "ws_then_tail sfx (drop j s)" "j \<le> n"
  shows "\<exists>i. j \<le> i \<and> i \<le> n \<and> stem_search sfx s n = Some (take i s) \<and> ws_then_tail sfx (drop i s)"
  using assms
proof (induction n)
  case 0
  then show ?case by auto
next
  case (Suc n)
  show ?case
  proof (cases "ws_then_tail sfx (drop (Suc n) s)")
    case True
    with Suc.prems show ?thesis by (intro exI[of _ "Suc n"]) simp
  next
    case False
    with Suc.prems have "j \<le> n" by (cases "j = Suc n") auto
    from Suc.IH[OF Suc.prems(1) this] False show ?thesis by auto
  qed
qed

lemma stem_search_sound:
  "stem_search sfx s n = Some r \<Longrightarrow> \<exists>i\<le>n. r = take i s \<and> ws_then_tail sfx (drop i s)"
  by (induction n) (auto split: if_splits intro: le_SucI)

lemma stem_search_None:
  "stem_search sfx s n = None \<longleftrightarrow> (\<forall>i\<le>n. \<not> ws_then_tail sfx (drop i s))"
  by (induction n) (auto simp: le_Suc_eq)

lemma guid_tail_length: "guid_tail sfx t \<Longrightarrow> length t = 38 + length sfx \<or> length t = 39 + length sfx"
  unfolding guid_tail_def
  by (cases t) (auto dest!: arg_cong[where f = length])

lemma ws_then_tail_shape:
  assumes "ws_then_tail sfx r"
  shows "\<exists>w t. r = w @ t \<and> w \<noteq> [] \<and> list_all py_isspace w \<and> guid_tail sfx t \<and> hd t = CHR ''{''"
proof -
  let ?w = "takeWhile py_isspace r" and ?t = "dropWhile py_isspace r"
  from assms have "?w \<noteq> []" "guid_tail sfx ?t" by (auto simp: ws_then_tail_def)
  moreover have "list_all py_isspace ?w" by (simp add: list_all_iff) (meson set_takeWhileD)
  moreover from \<open>guid_tail sfx ?t\<close> have "hd ?t = CHR ''{''" by (cases ?t) (auto simp: guid_tail_def)
  ultimately show ?thesis by (intro exI[of _ ?w] exI[of _ ?t]) simp
qed

lemma not_space_brace: "\<not> py_isspace (CHR ''{'')"
  by (simp add: py_isspace_def)

lemma ws_then_tail_intro:
  assumes "w \<noteq> []" "list_all py_isspace w" "guid_tail sfx t"
  shows "ws_then_tail sfx (w @ t)"
proof -
  from assms(3) obtain r where t: "t = CHR ''{'' # r" by (cases t) (auto simp: guid_tail_def)
  from assms(2) have "takeWhile py_isspace (w @ t) = w" "dropWhile py_isspace (w @ t) = t"
    by (auto simp: t list_all_iff not_space_brace takeWhile_append dropWhile_append)
  with assms show ?thesis by (simp add: ws_then_tail_def)
qed

lemma guid_tail_intro:
  assumes "length g = 36" "list_all guid_char g" "nl = [] \<or> nl = [CHR 0x0A]"
  shows "guid_tail sfx (''{'' @ g @ ''}'' @ sfx @ nl)"
  using assms by (auto simp: guid_tail_def)

lemma guid_re_match_stem:
  assumes nonl: "CHR 0x0A \<notin> set stem" and ws: "ws \<noteq> []" "list_all py_isspace ws"
    and g: "length g = 36" "list_all guid_char g" and nl: "nl = [] \<or> nl = [CHR 0x0A]"
  shows "\<exists>w. guid_re_match sfx (stem @ ws @ ''{'' @ g @ ''}'' @ sfx @ nl) = Some (stem @ w)
           \<and> list_all py_isspace w"
proof -
  let ?T = "''{'' @ g @ ''}'' @ sfx @ nl"
  let ?s = "stem @ ws @ ?T"
  let ?n = "length (takeWhile (\<lambda>c. c \<noteq> CHR 0x0A) ?s)"
  have T: "guid_tail sfx ?T" using g nl by (rule guid_tail_intro)
  have n: "length stem \<le> ?n" using nonl by (simp add: takeWhile_append)
  have "ws_then_tail sfx (drop (length stem) ?s)"
    using ws_then_tail_intro[OF ws T] by simp
  from stem_search_finds[OF this n] obtain i where i: "length stem \<le> i"
    "stem_search sfx ?s ?n = Some (take i ?s)" "ws_then_tail sfx (drop i ?s)"
    by blast
  from ws_then_tail_shape[OF i(3)] obtain w t where wt: "drop i ?s = w @ t" "w \<noteq> []"
    "list_all py_isspace w" "guid_tail sfx t" "hd t = CHR ''{''" by blast
  have lt: "length t \<ge> length ?T - 1"
    using guid_tail_length[OF wt(4)] guid_tail_length[OF T] by auto
  have "length (drop i ?s) = length w + length t" using wt(1) by simp
  then have le: "i - length stem \<le> length ws" using lt wt(2) i(1)
    by (cases w) auto
  have "i - length stem \<noteq> length ws"
  proof
    assume e: "i - length stem = length ws"
    with i(1) have "drop i ?s = ?T" by simp
    with wt(1) have "hd w = CHR ''{''" using wt(2) by (cases w) auto
    with wt(2,3) show False by (cases w) (auto simp: not_space_brace)
  qed
  with le have "i - length stem < length ws" by simp
  then have "take i ?s = stem @ take (i - length stem) ws" using i(1) by simp
  moreover have "list_all py_isspace (take (i - length stem) ws)"
    using ws(2) by (auto simp: list_all_iff dest: in_set_takeD)
  ultimately show ?thesis using i(2) by (auto simp: guid_re_match_def)
qed

lemma py_stem_split:
  assumes "base \<noteq> []" "ext \<noteq> []" "CHR ''.'' \<notin> set ext"
  shows "py_stem (base @ ''.'' @ ext) = base"
proof -
  have "takeWhile (\<lambda>x. x \<noteq> CHR ''.'') (rev ext @ CHR ''.'' # rev base) = rev ext"
    using assms(3) by (simp add: takeWhile_append)
  then have "rfind (CHR ''.'') (base @ ''.'' @ ext) = Some (length base)"
    by (simp add: rfind_def)
  with assms show ?thesis by (cases ext) (auto simp: py_stem_def)
qed

lemma py_stem_nodot: "CHR ''.'' \<notin> set name \<Longrightarrow> py_stem name = name"
  by (simp add: py_stem_def rfind_def)

lemma guid_tail_shape:
  assumes "guid_tail sfx t"
  shows "\<exists>g nl. t = ''{'' @ g @ ''}'' @ sfx @ nl \<and> length g = 36 \<and> list_all guid_char g
           \<and> (nl = [] \<or> nl = [CHR 0x0A])"
proof -
  from assms obtain r where t: "t = CHR ''{'' # r" and r: "36 \<le> length r"
    "list_all guid_char (take 36 r)"
    "drop 36 r = ''}'' @ sfx \<or> drop 36 r = ''}'' @ sfx @ [CHR 0x0A]"
    by (cases t) (auto simp: guid_tail_def)
  have len: "length (take 36 r) = 36" using r(1) by simp
  have t': "t = ''{'' @ take 36 r @ drop 36 r" by (simp add: t)
  from r(3) show ?thesis
  proof
    assume "drop 36 r = ''}'' @ sfx"
    with t' have "t = ''{'' @ take 36 r @ ''}'' @ sfx @ []" by simp
    with len r(2) show ?thesis by blast
  next
    assume "drop 36 r = ''}'' @ sfx @ [CHR 0x0A]"
    with t' have "t = ''{'' @ take 36 r @ ''}'' @ sfx @ [CHR 0x0A]" by simp
    with len r(2) show ?thesis by blast
  qed
qed

lemma guid_re_match_shape:
  assumes "guid_re_match sfx s = Some r"
  shows "\<exists>ws g nl. s = r @ ws @ ''{'' @ g @ ''}'' @ sfx @ nl \<and> ws \<noteq> [] \<and> list_all py_isspace ws
           \<and> length g = 36 \<and> list_all guid_char g \<and> (nl = [] \<or> nl = [CHR 0x0A])
           \<and> CHR 0x0A \<notin> set r"
proof -
  let ?n = "length (takeWhile (\<lambda>c. c \<noteq> CHR 0x0A) s)"
  from assms stem_search_sound[of sfx s ?n r] obtain i where i: "i \<le> ?n" "r = take i s"
    "ws_then_tail sfx (drop i s)" by (auto simp: guid_re_match_def)
  from ws_then_tail_shape[OF i(3)] obtain w t where wt: "drop i s = w @ t" "w \<noteq> []"
    "list_all py_isspace w" "guid_tail sfx t" by blast
  from guid_tail_shape[OF wt(4)] obtain g nl where g: "t = ''{'' @ g @ ''}'' @ sfx @ nl"
    "length g = 36" "list_all guid_char g" "nl = [] \<or> nl = [CHR 0x0A]" by blast
  have "s = take i s @ drop i s" by simp
  then have s: "s = r @ w @ ''{'' @ g @ ''}'' @ sfx @ nl" using i(2) wt(1) g(1) by simp
  have "set (take i s) \<subseteq> set (takeWhile (\<lambda>c. c \<noteq> CHR 0x0A) s)"
    using i(1) by (metis set_take_subset_set_take take_all_iff takeWhile_eq_take le_refl)
  then have "CHR 0x0A \<notin> set r" using i(2) by (auto dest: set_takeWhileD)
  with s wt(2,3) g(2-4) show ?thesis by blast
qed

text \<open>
  Claim C4, as amended. Both normalizers return the trimmed stem before the brace for a
  name of the form \<open><stem><whitespace>{<36 GUID characters>}<suffix>\<close> (suffix \<open>.xml\<close>
  for \<open>normalize_key\<close>, \<open>.diff.lua\<close> for \<open>normalize_guid_filename\<close>), and every name the
  pattern matches has that form. For a name the pattern does not match,
  \<open>normalize_key\<close> returns the name with its final extension removed, trimmed, whereas
  \<open>normalize_guid_filename\<close> returns the name as it is, extension included.
\<close>

theorem normalizers_by_pattern:
  "(CHR 0x0A \<notin> set stem \<and> ws \<noteq> [] \<and> list_all py_isspace ws \<and> length g = 36
      \<and> list_all guid_char g \<longrightarrow>
        normalize_key (stem @ ws @ ''{'' @ g @ ''}.xml'') = py_strip stem
      \<and> normalize_guid_filename (stem @ ws @ ''{'' @ g @ ''}.diff.lua'') = py_strip stem)
   \<and> (guid_re_match sfx name = Some r \<longrightarrow>
        (\<exists>ws g nl. name = r @ ws @ ''{'' @ g @ ''}'' @ sfx @ nl \<and> ws \<noteq> []
           \<and> list_all py_isspace ws \<and> length g = 36 \<and> list_all guid_char g
           \<and> (nl = [] \<or> nl = [CHR 0x0A])))
   \<and> (GUID_FILENAME_RE name = None \<longrightarrow> normalize_key name = py_strip (py_stem name))
   \<and> (base \<noteq> [] \<and> ext \<noteq> [] \<and> CHR ''.'' \<notin> set ext \<longrightarrow> py_stem (base @ ''.'' @ ext) = base)
   \<and> (GUID_DIFF_RE name = None \<longrightarrow> normalize_guid_filename name = name)"
proof (intro conjI impI)
  assume h: "CHR 0x0A \<notin> set stem \<and> ws \<noteq> [] \<and> list_all py_isspace ws \<and> length g = 36
      \<and> list_all guid_char g"
  from h guid_re_match_stem[of stem ws g "[]" "''.xml''"]
  obtain w where "GUID_FILENAME_RE (stem @ ws @ ''{'' @ g @ ''}.xml'') = Some (stem @ w)"
    "list_all py_isspace w" by auto
  then show "normalize_key (stem @ ws @ ''{'' @ g @ ''}.xml'') = py_strip stem"
    by (simp add: normalize_key_def py_strip_append_ws)
  from h guid_re_match_stem[of stem ws g "[]" "''.diff.lua''"]
  obtain w where "GUID_DIFF_RE (stem @ ws @ ''{'' @ g @ ''}.diff.lua'') = Some (stem @ w)"
    "list_all py_isspace w" by auto
  then show "normalize_guid_filename (stem @ ws @ ''{'' @ g @ ''}.diff.lua'') = py_strip stem"
    by (simp add: normalize_guid_filename_def py_strip_append_ws)
next
  assume "guid_re_match sfx name = Some r"
  from guid_re_match_shape[OF this]
  show "\<exists>ws g nl. name = r @ ws @ ''{'' @ g @ ''}'' @ sfx @ nl \<and> ws \<noteq> []
           \<and> list_all py_isspace ws \<and> length g = 36 \<and> list_all guid_char g
           \<and> (nl = [] \<or> nl = [CHR 0x0A])" by blast
next
  assume "GUID_FILENAME_RE name = None"
  then show "normalize_key name = py_strip (py_stem name)" by (simp add: normalize_key_def)
next
  assume "base \<noteq> [] \<and> ext \<noteq> [] \<and> CHR ''.'' \<notin> set ext"
  then show "py_stem (base @ ''.'' @ ext) = base" using py_stem_split[of base ext] by simp
next
  assume "GUID_DIFF_RE name = None"
  then show "normalize_guid_filename name = name" by (simp add: normalize_guid_filename_def)
qed

text \<open>
  Witness for C4: a BMS profile and a DCS binding with a GUID, and two names without
  one.
\<close>

theorem normalizers_by_pattern_witness:
  "normalize_key ''Profile A {11111111-1111-1111-1111-111111111111}.xml'' = ''Profile A''
   \<and> normalize_guid_filename ''Profile A {11111111-1111-1111-1111-111111111111}.diff.lua''
       = ''Profile A''
   \<and> GUID_FILENAME_RE ''notes.v1.xml'' = None
   \<and> normalize_key ''notes.v1.xml'' = py_strip (py_stem ''notes.v1.xml'')
   \<and> py_stem (''notes.v1'' @ ''.'' @ ''xml'') = ''notes.v1''
   \<and> GUID_DIFF_RE ''Keyboard.diff.lua'' = None
   \<and> normalize_guid_filename ''Keyboard.diff.lua'' = ''Keyboard.diff.lua''"
proof -
  have g: "CHR 0x0A \<notin> set ''Profile A'' \<and> '' '' \<noteq> [] \<and> list_all py_isspace '' ''
      \<and> length ''11111111-1111-1111-1111-111111111111'' = 36
      \<and> list_all guid_char ''11111111-1111-1111-1111-111111111111''"
    by (simp add: py_isspace_def guid_char_def)
  have n1: "GUID_FILENAME_RE ''notes.v1.xml'' = None" by code_simp
  have n2: "GUID_DIFF_RE ''Keyboard.diff.lua'' = None" by code_simp
  have s: "py_strip ''Profile A'' = ''Profile A''" by code_simp
  note a = normalizers_by_pattern[of "''Profile A''" "'' ''"
      "''11111111-1111-1111-1111-111111111111''" "''.xml''" "''notes.v1.xml''" "[]"
      "''notes.v1''" "''xml''"]
  note b = normalizers_by_pattern[of "[]" "[]" "[]" "''.diff.lua''" "''Keyboard.diff.lua''"
      "[]" "[]" "[]"]
  from a g s n1 b n2 show ?thesis by simp
qed

text \<open>
  Counterexample to C4 as stated: \<open>Keyboard.diff.lua\<close> does not match the DCS pattern,
  and the DCS normalizer returns it whole, not with its final extension removed.
\<close>

theorem normalize_guid_filename_keeps_extension:
  "GUID_DIFF_RE ''Keyboard.diff.lua'' = None
   \<and> normalize_guid_filename ''Keyboard.diff.lua'' = ''Keyboard.diff.lua''
   \<and> py_strip (py_stem ''Keyboard.diff.lua'') = ''Keyboard.diff''
   \<and> normalize_guid_filename ''Keyboard.diff.lua'' \<noteq> py_strip (py_stem ''Keyboard.diff.lua'')"
  by code_simp

section \<open>The file system operations\<close>

lemma py_suffix_is_suffix:
  "take (length name - length (py_suffix name)) name @ py_suffix name = name"
proof (cases "rfind (CHR ''.'') name")
  case None
  then show ?thesis by (simp add: py_suffix_def)
next
  case (Some i)
  show ?thesis
  proof (cases "0 < i \<and> i < length name - 1")
    case True
    then have "py_suffix name = drop i name" using Some by (simp add: py_suffix_def)
    moreover from True have "length name - length (drop i name) = i" by (simp; arith)
    ultimately show ?thesis by simp
  next
    case False
    then have "py_suffix name = []" using Some by (auto simp: py_suffix_def)
    then show ?thesis by simp
  qed
qed

lemma tmp_of_eq: "tmp_of target = butlast target @ [path_name target @ ''.tmp'']"
proof -
  let ?n = "path_name target"
  have "take (length ?n - length (py_suffix ?n)) ?n @ py_suffix ?n @ ''.tmp''
          = (take (length ?n - length (py_suffix ?n)) ?n @ py_suffix ?n) @ ''.tmp''"
    by (simp only: append_assoc)
  also have "\<dots> = ?n @ ''.tmp''" by (simp only: py_suffix_is_suffix)
  finally show ?thesis by (simp add: tmp_of_def with_suffix_def Let_def)
qed

lemma tmp_of_neq: "tmp_of target \<noteq> target"
proof
  assume a: "tmp_of target = target"
  then have "length (path_name (tmp_of target)) = length (path_name target)" by simp
  moreover have "path_name (tmp_of target) = path_name target @ ''.tmp''"
    by (simp add: tmp_of_eq path_name_def)
  ultimately show False by simp
qed

lemma tmp_of_sibling: "target \<noteq> [] \<Longrightarrow> butlast (tmp_of target) = butlast target"
  by (simp add: tmp_of_eq)

lemma map_of_update: "map_of (AList.update k v d) p = (if p = k then Some v else map_of d p)"
  by (simp add: update_conv')

lemma map_of_delete: "map_of (AList.delete k d) p = (if p = k then None else map_of d p)"
  by (simp add: delete_conv')

lemma write_bytes_other:
  "write_bytes E d dst c = (r, d') \<Longrightarrow> p \<noteq> dst \<Longrightarrow> map_of d' p = map_of d p"
  by (auto simp: write_bytes_def map_of_update split: if_splits option.splits)

lemma write_bytes_ok:
  "write_bytes E d dst c = (None, d') \<Longrightarrow> d' = AList.update dst (File c (now E)) d"
  by (auto simp: write_bytes_def split: if_splits option.splits)

lemma copyfile_other:
  "copyfile E d src dst = (r, d') \<Longrightarrow> p \<noteq> dst \<Longrightarrow> map_of d' p = map_of d p"
  by (auto simp: copyfile_def split: if_splits sum.splits dest: write_bytes_other)

lemma copyfile_ok:
  assumes "copyfile E d src dst = (None, d')"
  shows "\<exists>c m. map_of d src = Some (File c m) \<and> \<not> unreadable E src \<and> src \<noteq> dst
           \<and> d' = AList.update dst (File c (now E)) d"
proof -
  from assms obtain c where c: "read_bytes E d src = Inr c" "write_bytes E d dst c = (None, d')"
    and ne: "\<not> (src = dst \<and> path_exists d src)"
    by (auto simp: copyfile_def split: if_splits sum.splits)
  from c(1) obtain m where m: "map_of d src = Some (File c m)" "\<not> unreadable E src"
    by (auto simp: read_bytes_def split: option.splits node.splits if_splits)
  with ne have "src \<noteq> dst" by (auto simp: path_exists_def)
  with m write_bytes_ok[OF c(2)] show ?thesis by blast
qed

lemma os_replace_err: "os_replace E d src dst = (Some e, d') \<Longrightarrow> d' = d"
  by (auto simp: os_replace_def split: option.splits node.splits if_splits)

lemma os_replace_ok:
  "os_replace E d src dst = (None, d') \<Longrightarrow>
     \<exists>c m. map_of d src = Some (File c m) \<and> d' = AList.update dst (File c m) (AList.delete src d)"
  by (auto simp: os_replace_def split: option.splits node.splits if_splits)

lemma finally_unlink_map_of:
  "map_of (finally_unlink E d tmp) p =
     (if p = tmp \<and> is_file d tmp \<and> \<not> unlink_fails E tmp then None else map_of d p)"
  by (auto simp: finally_unlink_def unlink_def path_exists_def is_file_def map_of_delete
           split: option.splits node.splits)

lemma copy_then_replace_ok:
  assumes "copy_then_replace E d backup_file tmp target = (None, d')" "tmp \<noteq> target"
  shows "\<exists>c m. map_of d backup_file = Some (File c m)
           \<and> d' = AList.update target (File c (now E))
                    (AList.delete tmp (AList.update tmp (File c (now E)) d))"
proof -
  from assms(1) obtain d1 where d1: "copyfile E d backup_file tmp = (None, d1)"
    "os_replace E d1 tmp target = (None, d')"
    by (auto simp: copy_then_replace_def split: prod.splits option.splits)
  from copyfile_ok[OF d1(1)] obtain c m where c: "map_of d backup_file = Some (File c m)"
    "d1 = AList.update tmp (File c (now E)) d" by blast
  from os_replace_ok[OF d1(2)] obtain c' m' where c': "map_of d1 tmp = Some (File c' m')"
    "d' = AList.update target (File c' m') (AList.delete tmp d1)" by blast
  from c(2) c'(1) have "c' = c" "m' = now E" by (auto simp: map_of_update)
  with c c' show ?thesis by blast
qed

lemma copy_then_replace_err:
  assumes "copy_then_replace E d backup_file tmp target = (Some e, d')"
  shows "\<forall>p. p \<noteq> tmp \<longrightarrow> map_of d' p = map_of d p"
proof -
  obtain r d1 where d1: "copyfile E d backup_file tmp = (r, d1)" by (cases "copyfile E d backup_file tmp")
  show ?thesis
  proof (cases r)
    case None
    with assms d1 have "os_replace E d1 tmp target = (Some e, d')"
      by (simp add: copy_then_replace_def)
    then have "d' = d1" by (rule os_replace_err)
    with copyfile_other[OF d1] show ?thesis by simp
  next
    case (Some e')
    with assms d1 have "d' = d1" by (simp add: copy_then_replace_def)
    with copyfile_other[OF d1] show ?thesis by simp
  qed
qed

lemma copy_then_replace_replace_fails:
  assumes "map_of d backup_file = Some (File c m)" "\<not> unreadable E backup_file"
    "backup_file \<noteq> tmp" "map_of d tmp \<noteq> Some Dir" "\<not> unwritable E tmp" "write_cut E tmp = None"
    "replace_fails E tmp target" "map_of d target \<noteq> Some Dir" "tmp \<noteq> target"
  shows "copy_then_replace E d backup_file tmp target
           = (Some PermissionError, AList.update tmp (File c (now E)) d)"
  using assms
  by (simp add: copy_then_replace_def copyfile_def read_bytes_def write_bytes_def os_replace_def
        map_of_update)

section \<open>Replacing the content of one target\<close>

lemma dcs_replace_live: "dcs_replace E False backup_file target st = bms_replace E backup_file target st"
  by (simp add: dcs_replace_def bms_replace_def say_def Let_def split: prod.splits option.splits)

lemma finally_unlink_absent: "map_of d tmp = None \<Longrightarrow> finally_unlink E d tmp = d"
  by (simp add: finally_unlink_def path_exists_def)

lemma bms_replace_ok:
  assumes "bms_replace E backup_file target st = (None, st')"
  shows "\<exists>c m d1. map_of (disk st) backup_file = Some (File c m)
           \<and> copyfile E (disk st) backup_file (tmp_of target) = (None, d1)
           \<and> os_replace E d1 (tmp_of target) target = (None, disk st')
           \<and> map_of (disk st') target = Some (File c (now E))
           \<and> map_of (disk st') (tmp_of target) = None
           \<and> (\<forall>p. p \<noteq> target \<and> p \<noteq> tmp_of target \<longrightarrow> map_of (disk st') p = map_of (disk st) p)
           \<and> restored st' = restored st + 1 \<and> out st' = out st @ [FIX target]"
proof -
  let ?tmp = "tmp_of target"
  from assms obtain d2 where d2: "copy_then_replace E (disk st) backup_file ?tmp target = (None, d2)"
    and st': "st' = say (FIX target) (st\<lparr>disk := finally_unlink E d2 ?tmp, restored := restored st + 1\<rparr>)"
    by (auto simp: bms_replace_def Let_def split: prod.splits option.splits)
  from d2 obtain d1 where d1: "copyfile E (disk st) backup_file ?tmp = (None, d1)"
    "os_replace E d1 ?tmp target = (None, d2)"
    by (auto simp: copy_then_replace_def split: prod.splits option.splits)
  from copy_then_replace_ok[OF d2 tmp_of_neq] obtain c m where
    c: "map_of (disk st) backup_file = Some (File c m)"
    "d2 = AList.update target (File c (now E))
            (AList.delete ?tmp (AList.update ?tmp (File c (now E)) (disk st)))" by blast
  have ne: "?tmp \<noteq> target" by (rule tmp_of_neq)
  have tmp_none: "map_of d2 ?tmp = None" using ne by (simp add: c(2) map_of_update map_of_delete)
  then have fin: "finally_unlink E d2 ?tmp = d2" by (rule finally_unlink_absent)
  have disk: "disk st' = d2" by (simp add: st' say_def fin)
  have tgt: "map_of d2 target = Some (File c (now E))" by (simp add: c(2) map_of_update)
  have oth: "\<forall>p. p \<noteq> target \<and> p \<noteq> ?tmp \<longrightarrow> map_of d2 p = map_of (disk st) p"
    by (simp add: c(2) map_of_update map_of_delete)
  have cnt: "restored st' = restored st + 1" "out st' = out st @ [FIX target]"
    by (simp_all add: st' say_def)
  show ?thesis using c(1) d1 disk tgt tmp_none oth cnt by auto
qed

lemma bms_replace_err:
  assumes "bms_replace E backup_file target st = (Some e, st')"
  shows "(\<forall>p. p \<noteq> tmp_of target \<longrightarrow> map_of (disk st') p = map_of (disk st) p)
         \<and> (\<not> unlink_fails E (tmp_of target) \<longrightarrow> \<not> is_file (disk st') (tmp_of target))
         \<and> restored st' = restored st \<and> out st' = out st"
proof -
  let ?tmp = "tmp_of target"
  from assms obtain d2 where d2: "copy_then_replace E (disk st) backup_file ?tmp target = (Some e, d2)"
    and st': "st' = st\<lparr>disk := finally_unlink E d2 ?tmp\<rparr>"
    by (auto simp: bms_replace_def Let_def split: prod.splits option.splits)
  from copy_then_replace_err[OF d2] have a: "\<forall>p. p \<noteq> ?tmp \<longrightarrow> map_of d2 p = map_of (disk st) p" .
  have "\<forall>p. p \<noteq> ?tmp \<longrightarrow> map_of (disk st') p = map_of (disk st) p"
    using a by (simp add: st' finally_unlink_map_of)
  moreover have "\<not> unlink_fails E ?tmp \<longrightarrow> \<not> is_file (disk st') ?tmp"
    by (auto simp: st' is_file_def finally_unlink_map_of split: option.splits node.splits)
  ultimately show ?thesis by (simp add: st')
qed

lemma bms_replace_rename_refused:
  assumes "copyfile E (disk st) backup_file (tmp_of target) = (None, d1)"
    "os_replace E d1 (tmp_of target) target = (Some e, d2)"
  shows "fst (bms_replace E backup_file target st) = Some e"
  using assms by (simp add: bms_replace_def copy_then_replace_def Let_def)

text \<open>
  Claim C2, as amended. The restore of a file artifact (the same code in \<open>bms_restore\<close>
  and, outside a dry run, in \<open>dcs_restore\<close>) writes the backup's bytes to the temporary
  path, which lies in the target's directory, and then renames that file over the
  target. When the restore raises, the target is as it was. When the temporary file
  was written and the rename then fails, the exception of the rename comes out and the
  target is as it was; the temporary path is empty afterwards if the unlink in the
  \<open>finally\<close> block succeeds, and still holds the backup's bytes if that unlink fails,
  since its \<open>OSError\<close> is swallowed.
\<close>

theorem restore_is_atomic:
  "(target \<noteq> [] \<longrightarrow> butlast (tmp_of target) = butlast target \<and> tmp_of target \<noteq> target)
   \<and> dcs_replace E False backup_file target st = bms_replace E backup_file target st
   \<and> (bms_replace E backup_file target st = (None, st') \<longrightarrow>
        (\<exists>c m d1. map_of (disk st) backup_file = Some (File c m)
           \<and> copyfile E (disk st) backup_file (tmp_of target) = (None, d1)
           \<and> map_of d1 (tmp_of target) = Some (File c (now E))
           \<and> os_replace E d1 (tmp_of target) target = (None, disk st')
           \<and> map_of (disk st') target = Some (File c (now E))
           \<and> map_of (disk st') (tmp_of target) = None))
   \<and> (bms_replace E backup_file target st = (Some e, st') \<longrightarrow>
        map_of (disk st') target = map_of (disk st) target
        \<and> (\<not> unlink_fails E (tmp_of target) \<longrightarrow> \<not> is_file (disk st') (tmp_of target)))
   \<and> (copyfile E (disk st) backup_file (tmp_of target) = (None, d1)
        \<and> os_replace E d1 (tmp_of target) target = (Some e, d2)
        \<and> \<not> unlink_fails E (tmp_of target) \<longrightarrow>
        fst (bms_replace E backup_file target st) = Some e
        \<and> map_of (disk (snd (bms_replace E backup_file target st))) target
            = map_of (disk st) target
        \<and> map_of (disk (snd (bms_replace E backup_file target st))) (tmp_of target) = None)
   \<and> (copyfile E (disk st) backup_file (tmp_of target) = (None, d1)
        \<and> os_replace E d1 (tmp_of target) target = (Some e, d2)
        \<and> unlink_fails E (tmp_of target) \<longrightarrow>
        fst (bms_replace E backup_file target st) = Some e
        \<and> map_of (disk (snd (bms_replace E backup_file target st))) target
            = map_of (disk st) target
        \<and> (\<exists>c m. map_of (disk st) backup_file = Some (File c m)
              \<and> map_of (disk (snd (bms_replace E backup_file target st))) (tmp_of target)
                  = Some (File c (now E))))"
proof (intro conjI impI)
  assume "target \<noteq> []"
  then show "butlast (tmp_of target) = butlast target" by (rule tmp_of_sibling)
  show "tmp_of target \<noteq> target" by (rule tmp_of_neq)
next
  show "dcs_replace E False backup_file target st = bms_replace E backup_file target st"
    by (rule dcs_replace_live)
next
  assume a: "bms_replace E backup_file target st = (None, st')"
  from bms_replace_ok[OF a] obtain c m d1 where r:
    "map_of (disk st) backup_file = Some (File c m)"
    "copyfile E (disk st) backup_file (tmp_of target) = (None, d1)"
    "os_replace E d1 (tmp_of target) target = (None, disk st')"
    "map_of (disk st') target = Some (File c (now E))"
    "map_of (disk st') (tmp_of target) = None" by blast
  from copyfile_ok[OF r(2)] r(1) have "map_of d1 (tmp_of target) = Some (File c (now E))"
    by (auto simp: map_of_update)
  with r show "\<exists>c m d1. map_of (disk st) backup_file = Some (File c m)
           \<and> copyfile E (disk st) backup_file (tmp_of target) = (None, d1)
           \<and> map_of d1 (tmp_of target) = Some (File c (now E))
           \<and> os_replace E d1 (tmp_of target) target = (None, disk st')
           \<and> map_of (disk st') target = Some (File c (now E))
           \<and> map_of (disk st') (tmp_of target) = None" by blast
next
  assume a: "bms_replace E backup_file target st = (Some e, st')"
  from bms_replace_err[OF a] tmp_of_neq[of target]
  show "map_of (disk st') target = map_of (disk st) target" by metis
  from bms_replace_err[OF a]
  show "\<not> unlink_fails E (tmp_of target) \<Longrightarrow> \<not> is_file (disk st') (tmp_of target)" by blast
next
  assume a: "copyfile E (disk st) backup_file (tmp_of target) = (None, d1)
        \<and> os_replace E d1 (tmp_of target) target = (Some e, d2)
        \<and> \<not> unlink_fails E (tmp_of target)"
  let ?r = "bms_replace E backup_file target st"
  from a have f: "fst ?r = Some e" by (simp add: bms_replace_rename_refused)
  then have r: "?r = (Some e, snd ?r)" by (cases ?r) simp
  from f show "fst ?r = Some e" .
  from bms_replace_err[OF r] tmp_of_neq[of target]
  show "map_of (disk (snd ?r)) target = map_of (disk st) target" by metis
  from a have d2: "d2 = d1" using os_replace_err[of E d1 "tmp_of target" target e d2] by blast
  from a copyfile_ok[of E "disk st" backup_file "tmp_of target" d1]
  obtain c where c: "d1 = AList.update (tmp_of target) (File c (now E)) (disk st)" by blast
  from a d2 have "snd ?r = st\<lparr>disk := finally_unlink E d1 (tmp_of target)\<rparr>"
    by (simp add: bms_replace_def copy_then_replace_def Let_def)
  moreover have "is_file d1 (tmp_of target)" by (simp add: c is_file_def map_of_update)
  ultimately show "map_of (disk (snd ?r)) (tmp_of target) = None"
    using a by (simp add: finally_unlink_map_of)
next
  assume a: "copyfile E (disk st) backup_file (tmp_of target) = (None, d1)
        \<and> os_replace E d1 (tmp_of target) target = (Some e, d2)
        \<and> unlink_fails E (tmp_of target)"
  let ?r = "bms_replace E backup_file target st"
  from a have f: "fst ?r = Some e" by (simp add: bms_replace_rename_refused)
  then have r: "?r = (Some e, snd ?r)" by (cases ?r) simp
  from f show "fst ?r = Some e" .
  from bms_replace_err[OF r] tmp_of_neq[of target]
  show "map_of (disk (snd ?r)) target = map_of (disk st) target" by metis
  from a have d2: "d2 = d1" using os_replace_err[of E d1 "tmp_of target" target e d2] by blast
  from a copyfile_ok[of E "disk st" backup_file "tmp_of target" d1]
  obtain c m where c: "map_of (disk st) backup_file = Some (File c m)"
    "d1 = AList.update (tmp_of target) (File c (now E)) (disk st)" by blast
  from a d2 have "snd ?r = st\<lparr>disk := finally_unlink E d1 (tmp_of target)\<rparr>"
    by (simp add: bms_replace_def copy_then_replace_def Let_def)
  then have "map_of (disk (snd ?r)) (tmp_of target) = Some (File c (now E))"
    using a by (simp add: finally_unlink_map_of c(2) map_of_update)
  with c(1) show "\<exists>c m. map_of (disk st) backup_file = Some (File c m)
              \<and> map_of (disk (snd ?r)) (tmp_of target) = Some (File c (now E))" by blast
qed

text \<open>
  Witness for C2: the restore of \<open>Profile A\<close> with every rename refused, and the same
  restore without failure.
\<close>

theorem restore_is_atomic_witness:
  "bms_live_A \<noteq> [] \<and> butlast (tmp_of bms_live_A) = butlast bms_live_A
   \<and> bms_replace env0 bms_backup_A bms_live_A (run0 bms_disk)
       = (None, snd (bms_replace env0 bms_backup_A bms_live_A (run0 bms_disk)))
   \<and> map_of (disk (snd (bms_replace env0 bms_backup_A bms_live_A (run0 bms_disk)))) bms_live_A
       = Some (File ''X'' 1700001000)
   \<and> bms_replace env_no_rename bms_backup_A bms_live_A (run0 bms_disk)
       = (Some PermissionError, run0 bms_disk)
   \<and> map_of (disk (run0 bms_disk)) bms_live_A = Some (File ''Y'' 1700000020)
   \<and> \<not> is_file (disk (run0 bms_disk)) (tmp_of bms_live_A)
   \<and> unlink_fails env_locked (tmp_of bms_live_A)
   \<and> fst (bms_replace env_locked bms_backup_A bms_live_A (run0 bms_disk)) = Some PermissionError
   \<and> map_of (disk (snd (bms_replace env_locked bms_backup_A bms_live_A (run0 bms_disk))))
        bms_live_A = Some (File ''Y'' 1700000020)"
proof -
  let ?ok = "bms_replace env0 bms_backup_A bms_live_A (run0 bms_disk)"
  have ne: "bms_live_A \<noteq> []" by (simp add: bms_live_A_def)
  have ok: "?ok = (None, snd ?ok)" by code_simp
  have bad: "bms_replace env_no_rename bms_backup_A bms_live_A (run0 bms_disk)
       = (Some PermissionError, run0 bms_disk)" by code_simp
  have u: "\<not> unlink_fails env_no_rename (tmp_of bms_live_A)"
    by (simp add: env_no_rename_def env0_def)
  have x: "map_of (disk (snd ?ok)) bms_live_A = Some (File ''X'' 1700001000)" by code_simp
  have y: "map_of (disk (run0 bms_disk)) bms_live_A = Some (File ''Y'' 1700000020)" by code_simp
  note a = restore_is_atomic[of bms_live_A env0 bms_backup_A "run0 bms_disk" "snd ?ok"]
  note b = restore_is_atomic[of bms_live_A env_no_rename bms_backup_A "run0 bms_disk"
      "run0 bms_disk" PermissionError]
  from a ne have "butlast (tmp_of bms_live_A) = butlast bms_live_A" by blast
  moreover from b bad u have "\<not> is_file (disk (run0 bms_disk)) (tmp_of bms_live_A)" by blast
  moreover have "unlink_fails env_locked (tmp_of bms_live_A)
      \<and> fst (bms_replace env_locked bms_backup_A bms_live_A (run0 bms_disk)) = Some PermissionError
      \<and> map_of (disk (snd (bms_replace env_locked bms_backup_A bms_live_A (run0 bms_disk))))
            bms_live_A = Some (File ''Y'' 1700000020)"
  proof -
    let ?d = "snd (copyfile env_locked (disk (run0 bms_disk)) bms_backup_A (tmp_of bms_live_A))"
    have h: "copyfile env_locked (disk (run0 bms_disk)) bms_backup_A (tmp_of bms_live_A) = (None, ?d)
        \<and> os_replace env_locked ?d (tmp_of bms_live_A) bms_live_A = (Some PermissionError, ?d)
        \<and> unlink_fails env_locked (tmp_of bms_live_A)" by code_simp
    note c = restore_is_atomic[of bms_live_A env_locked bms_backup_A "run0 bms_disk"
        "run0 bms_disk" PermissionError ?d ?d]
    from c h y show ?thesis by simp
  qed
  ultimately show ?thesis using ne ok bad x y by blast
qed

text \<open>
  Counterexample to C2 as stated: the temporary file of \<open>Profile A\<close> is written, the
  rename is refused, and so is the unlink of the \<open>finally\<close> block; the target is
  unchanged, and the temporary file remains.
\<close>

theorem temporary_file_left_behind:
  "fst (copyfile env_locked bms_disk bms_backup_A (tmp_of bms_live_A)) = None
   \<and> fst (os_replace env_locked (snd (copyfile env_locked bms_disk bms_backup_A (tmp_of bms_live_A)))
           (tmp_of bms_live_A) bms_live_A) = Some PermissionError
   \<and> fst (bms_replace env_locked bms_backup_A bms_live_A (run0 bms_disk)) = Some PermissionError
   \<and> map_of (disk (snd (bms_replace env_locked bms_backup_A bms_live_A (run0 bms_disk))))
        bms_live_A = Some (File ''Y'' 1700000020)
   \<and> is_file (disk (snd (bms_replace env_locked bms_backup_A bms_live_A (run0 bms_disk))))
        (tmp_of bms_live_A)
   \<and> map_of (disk (snd (bms_replace env_locked bms_backup_A bms_live_A (run0 bms_disk))))
        (tmp_of bms_live_A) = Some (File ''X'' 1700001000)"
  by code_simp

section \<open>One decision of a pass\<close>










section \<open>What a dry run of \<open>dcs_restore\<close> keeps\<close>





















































section \<open>Steps that raise\<close>







section \<open>The document remapper\<close>

lemma plan_entry_stored:
  assumes "plan_entry L device_map old_guid entry = Inr (k, v, c)"
  shows "(k, v) = stored L device_map (old_guid, entry)"
proof (cases entry)
  case (JObj e)
  show ?thesis
  proof (cases "\<not> truthy (dict_get e ''Kind'') \<or> \<not> truthy (dict_get e ''Name'')")
    case True
    then have "matched_guid L device_map entry = None"
      by (auto simp: matched_guid_def JObj truthy_def split: json.splits option.splits list.splits)
    moreover from True assms have "(k, v) = (old_guid, entry)"
      by (auto simp: plan_entry_def JObj Let_def)
    ultimately show ?thesis by (simp add: stored_def)
  next
    case False
    then have t: "truthy (dict_get e ''Kind'')" "truthy (dict_get e ''Name'')" by auto
    with assms obtain nm where nm: "dict_get e ''Name'' = JStr nm"
      by (auto simp: plan_entry_def JObj Let_def split: json.splits)
    from t nm have nm_ne: "nm \<noteq> []" by (simp add: truthy_def)
    show ?thesis
    proof (cases "dict_get e ''Kind''")
      case (JStr kd)
      with t have kd_ne: "kd \<noteq> []" by (simp add: truthy_def)
      show ?thesis
      proof (cases "device_map (kd, normalize_name L nm)")
        case None
        with assms t nm JStr have "(k, v) = (old_guid, entry)"
          by (auto simp: plan_entry_def JObj Let_def)
        moreover from None nm JStr have "matched_guid L device_map entry = None"
          by (simp add: matched_guid_def JObj)
        ultimately show ?thesis by (simp add: stored_def)
      next
        case (Some gs)
        show ?thesis
        proof (cases gs)
          case Nil
          with Some assms t nm JStr have "(k, v) = (old_guid, entry)"
            by (auto simp: plan_entry_def JObj Let_def)
          moreover from Nil Some nm JStr have "matched_guid L device_map entry = None"
            by (simp add: matched_guid_def JObj)
          ultimately show ?thesis by (simp add: stored_def)
        next
          case (Cons g gs')
          with Some assms t nm JStr have "(k, v) = (g, JObj (AList.update ''ID'' (JStr g) e))"
            by (auto simp: plan_entry_def JObj Let_def)
          moreover from Cons Some nm JStr nm_ne kd_ne have "matched_guid L device_map entry = Some g"
            by (simp add: matched_guid_def JObj)
          ultimately show ?thesis by (simp add: stored_def rewritten_def JObj)
        qed
      qed
    qed (use assms t nm in \<open>auto simp: plan_entry_def JObj Let_def stored_def matched_guid_def\<close>)
  qed
qed (use assms in \<open>auto simp: plan_entry_def stored_def matched_guid_def\<close>)

lemma plan_loop_map_of:
  assumes "plan_loop L device_map devs (nd, chs) = Inr (nd', chs')"
  shows "map_of nd' = map_of nd ++ map_of (rev (map (stored L device_map) devs))
       \<and> fst ` set nd' = fst ` set nd \<union> fst ` stored L device_map ` set devs
       \<and> (distinct (map fst nd) \<longrightarrow> distinct (map fst nd'))"
  using assms
proof (induction devs arbitrary: nd chs)
  case Nil
  then show ?case by simp
next
  case (Cons x devs)
  obtain old_guid entry where x: "x = (old_guid, entry)" by (cases x)
  from Cons.prems x obtain k v c where e: "plan_entry L device_map old_guid entry = Inr (k, v, c)"
    and r: "plan_loop L device_map devs (AList.update k v nd, chs @ c) = Inr (nd', chs')"
    by (auto split: sum.splits)
  from plan_entry_stored[OF e] x have s: "stored L device_map x = (k, v)" by simp
  from Cons.IH[OF r] have ih:
    "map_of nd' = map_of (AList.update k v nd) ++ map_of (rev (map (stored L device_map) devs))"
    "fst ` set nd' = fst ` set (AList.update k v nd) \<union> fst ` stored L device_map ` set devs"
    "distinct (map fst (AList.update k v nd)) \<longrightarrow> distinct (map fst nd')" by auto
  have "map_of nd' = map_of nd ++ map_of (rev (map (stored L device_map) (x # devs)))"
    by (simp add: ih(1) s update_conv' map_add_upd_left)
  moreover have "fst ` set nd' = fst ` set nd \<union> fst ` stored L device_map ` set (x # devs)"
    using ih(2) s by (auto simp: dom_update)
  moreover have "distinct (map fst nd) \<longrightarrow> distinct (map fst nd')"
    using ih(3) by (simp add: distinct_update)
  ultimately show ?case by blast
qed

lemma card_image_less:
  assumes "finite A" "x \<in> A" "y \<in> A" "x \<noteq> y" "f x = f y"
  shows "card (f ` A) < card A"
proof -
  have "\<not> inj_on f A" using assms(2-5) by (auto simp: inj_on_def)
  with eq_card_imp_inj_on[OF assms(1)] have "card (f ` A) \<noteq> card A" by blast
  with card_image_le[OF assms(1), of f] show ?thesis by simp
qed

lemma plan_for_data_Some:
  assumes "plan_for_data L device_map p (JObj members) = Inr (Some P)"
    "map_of members ''Devices'' = Some (JObj devs)"
  shows "\<exists>nd chs. plan_loop L device_map devs ([], []) = Inr (nd, chs) \<and> chs \<noteq> []
           \<and> P = \<lparr>plan_file = p, changes = chs,
                    new_data = AList.update ''Devices'' (JObj nd) members\<rparr>"
  using assms by (auto simp: plan_for_data_def split: sum.splits if_splits)

lemma matched_guid_by_key:
  assumes "dict_get e ''Kind'' = JStr kind" "kind \<noteq> []" "dict_get e ''Name'' = JStr nm" "nm \<noteq> []"
    "device_map (kind, normalize_name L nm) = Some (g # gs)"
  shows "matched_guid L device_map (JObj e) = Some g"
  using assms by (simp add: matched_guid_def)

lemma build_plan_file:
  "build_plan_for_file L E d f device_map = Inr (Some pl) \<Longrightarrow> plan_file pl = f"
  by (auto simp: build_plan_for_file_def plan_for_data_def
           split: sum.splits option.splits json.splits if_splits prod.splits)

lemma collect_plans_mem:
  "collect_plans L E d device_map fs = Inr plans \<Longrightarrow> pl \<in> set plans \<Longrightarrow>
     build_plan_for_file L E d (plan_file pl) device_map = Inr (Some pl) \<and> plan_file pl \<in> set fs"
proof (induction fs arbitrary: plans)
  case Nil
  then show ?case by simp
next
  case (Cons f fs)
  from Cons.prems(1) obtain r ps where r: "build_plan_for_file L E d f device_map = Inr r"
    and ps: "collect_plans L E d device_map fs = Inr ps"
    and plans: "plans = (case r of None \<Rightarrow> [] | Some pl \<Rightarrow> [pl]) @ ps"
    by (auto split: sum.splits)
  show ?case
  proof (cases "pl \<in> set ps")
    case True
    from Cons.IH[OF ps True] show ?thesis by simp
  next
    case False
    with Cons.prems(2) plans have "r = Some pl" by (auto split: option.splits)
    with r build_plan_file[of L E d f device_map pl] show ?thesis by simp
  qed
qed

lemma apply_plans_other:
  "apply_plans L E pls d = (r, d') \<Longrightarrow> q \<notin> plan_file ` set pls \<Longrightarrow> map_of d' q = map_of d q"
proof (induction pls arbitrary: d)
  case Nil
  then show ?case by simp
next
  case (Cons pl pls)
  obtain r1 d1 where w: "write_bytes E d (plan_file pl)
      (json_dumps L (JObj (new_data pl)) @ [CHR 0x0A]) = (r1, d1)"
    by (cases "write_bytes E d (plan_file pl) (json_dumps L (JObj (new_data pl)) @ [CHR 0x0A])")
  from Cons.prems(2) have q: "q \<noteq> plan_file pl" "q \<notin> plan_file ` set pls" by auto
  from write_bytes_other[OF w q(1)] have d1: "map_of d1 q = map_of d q" .
  show ?case
  proof (cases r1)
    case None
    with Cons.prems(1) w have "apply_plans L E pls d1 = (r, d')" by simp
    from Cons.IH[OF this q(2)] d1 show ?thesis by simp
  next
    case (Some e)
    with Cons.prems(1) w have "d' = d1" by simp
    with d1 show ?thesis by simp
  qed
qed

lemma zip_entries_names:
  "zip_entries E d z written files = (r, es) \<Longrightarrow>
     fst ` set es \<subseteq> fst ` set written \<union> fst ` set files"
proof (induction files arbitrary: written)
  case Nil
  then show ?case by simp
next
  case (Cons x files)
  obtain a p where x: "x = (a, p)" by (cases x)
  show ?case
  proof (cases "st_mtime d p")
    case (Inl e)
    with Cons.prems x show ?thesis by auto
  next
    case (Inr m)
    show ?thesis
    proof (cases "before_1980 E m")
      case True
      with Cons.prems x Inr show ?thesis by auto
    next
      case old: False
      show ?thesis
      proof (cases "p = z")
        case True
        with Cons.prems x Inr old
        have "zip_entries E d z (written @ [(a, zip_partial E written)]) files = (r, es)" by simp
        from Cons.IH[OF this] x show ?thesis by auto
      next
        case False
        show ?thesis
        proof (cases "read_bytes E d p")
          case (Inl e)
          with Cons.prems x Inr old False show ?thesis by auto
        next
          case c: (Inr c)
          with Cons.prems x Inr old False
          have "zip_entries E d z (written @ [(a, c)]) files = (r, es)" by simp
          from Cons.IH[OF this] x show ?thesis by auto
        qed
      qed
    qed
  qed
qed

lemma open_zip_other:
  "open_zip E d z = (r, d0) \<Longrightarrow> q \<noteq> z \<Longrightarrow> map_of d0 q = map_of d q"
  by (auto simp: open_zip_def map_of_update split: if_splits)

lemma write_zip_other:
  assumes "write_zip E d z files = (r, d', es)" "q \<noteq> z"
  shows "map_of d' q = map_of d q"
proof -
  obtain r0 d0 where o: "open_zip E d z = (r0, d0)" by (cases "open_zip E d z")
  from open_zip_other[OF o assms(2)] have d0: "map_of d0 q = map_of d q" .
  show ?thesis
  proof (cases r0)
    case (Some e)
    with assms(1) o have "d' = d0" by (simp add: write_zip_def)
    with d0 show ?thesis by simp
  next
    case None
    obtain r1 es1 where z: "zip_entries E d0 z [] (files d0) = (r1, es1)"
      by (cases "zip_entries E d0 z [] (files d0)")
    from assms(1) o None z obtain c where "d' = AList.update z (File c (now E)) d0"
      by (cases r1; cases "write_cut E z") (auto simp: write_zip_def)
    with d0 assms(2) show ?thesis by (simp add: map_of_update)
  qed
qed

lemma write_zip_names:
  assumes "write_zip E d z files = (r, d', es)" "\<And>d0. fst ` set (files d0) \<subseteq> A"
  shows "fst ` set es \<subseteq> A"
proof -
  obtain r0 d0 where o: "open_zip E d z = (r0, d0)" by (cases "open_zip E d z")
  show ?thesis
  proof (cases r0)
    case (Some e)
    with assms(1) o have "es = []" by (simp add: write_zip_def)
    then show ?thesis by simp
  next
    case None
    obtain r1 es1 where z: "zip_entries E d0 z [] (files d0) = (r1, es1)"
      by (cases "zip_entries E d0 z [] (files d0)")
    from assms(1) o None z have "es = es1"
      by (cases r1; cases "write_cut E z") (auto simp: write_zip_def)
    with zip_entries_names[OF z] assms(2)[of d0] show ?thesis by auto
  qed
qed

lemma below_drop_inj:
  "below root p \<Longrightarrow> below root q \<Longrightarrow> drop (length root) p = drop (length root) q \<Longrightarrow> p = q"
  by (metis append_take_drop_id below_def)

lemma okb_main_effect:
  assumes "okb_main L E dry_run okb_root backup_root device_map d = (r, d', lines)"
  shows "\<exists>plans.
       (\<forall>pl\<in>set plans. build_plan_for_file L E d (plan_file pl) device_map = Inr (Some pl)
                        \<and> below okb_root (plan_file pl))
     \<and> (\<forall>q. q \<noteq> okb_zip_path E backup_root \<and> q \<notin> plan_file ` set plans \<longrightarrow>
              map_of d' q = map_of d q)
     \<and> (dry_run \<longrightarrow> (\<forall>q. q \<noteq> okb_zip_path E backup_root \<longrightarrow> map_of d' q = map_of d q))
     \<and> (\<forall>z es. BackupWritten z es \<in> set lines \<longrightarrow>
           z = okb_zip_path E backup_root
         \<and> fst ` set es \<subseteq> (\<lambda>pl. drop (length okb_root) (plan_file pl)) ` set plans)"
proof -
  let ?files = "sort [p \<leftarrow> rglob_all d okb_root. path_name p = ''DirectInput.json'']"
  let ?z = "okb_zip_path E backup_root"
  have triv: ?thesis if "d' = d" "\<forall>z es. BackupWritten z es \<notin> set lines"
    using that by (intro exI[of _ "[]"]) simp
  show ?thesis
  proof (cases "?files = []")
    case True
    with assms have "d' = d" "lines = [NoFiles]" by (simp_all add: okb_main_def Let_def)
    then show ?thesis by (intro triv) auto
  next
    case nonempty: False
    show ?thesis
    proof (cases "collect_plans L E d device_map ?files")
      case (Inl e)
      with assms nonempty have "d' = d" "lines = []" by (simp_all add: okb_main_def Let_def)
      then show ?thesis by (intro triv) auto
    next
      case (Inr plans)
      have pl: "\<forall>pl\<in>set plans. build_plan_for_file L E d (plan_file pl) device_map = Inr (Some pl)
                        \<and> below okb_root (plan_file pl)"
      proof
        fix pl assume "pl \<in> set plans"
        from collect_plans_mem[OF Inr this]
        show "build_plan_for_file L E d (plan_file pl) device_map = Inr (Some pl)
                \<and> below okb_root (plan_file pl)"
          by (auto simp: rglob_all_def)
      qed
      show ?thesis
      proof (cases "plans = []")
        case True
        with assms nonempty Inr have "d' = d" "lines = [Planned plans, NoChanges]"
          by (simp_all add: okb_main_def Let_def)
        then show ?thesis by (intro triv) auto
      next
        case False
        let ?zf = "map (\<lambda>pl. (drop (length okb_root) (plan_file pl), plan_file pl)) plans"
        obtain rz d1 es where z: "write_zip E d ?z (\<lambda>d0. ?zf) = (rz, d1, es)"
          by (cases "write_zip E d ?z (\<lambda>d0. ?zf)") auto
        have d1: "\<forall>q. q \<noteq> ?z \<longrightarrow> map_of d1 q = map_of d q"
          using write_zip_other[OF z] by blast
        have es1: "fst ` set es \<subseteq> (\<lambda>pl. drop (length okb_root) (plan_file pl)) ` set plans"
          by (rule write_zip_names[OF z]) (auto simp: image_comp comp_def)
        have lines: "\<forall>z' es'. BackupWritten z' es' \<in> set lines \<longrightarrow> z' = ?z \<and> es' = es"
          using assms nonempty Inr False z
          by (auto simp: okb_main_def Let_def okb_zip_path_def split: option.splits prod.splits if_splits)
        have dd: "\<forall>q. q \<noteq> ?z \<and> q \<notin> plan_file ` set plans \<longrightarrow> map_of d' q = map_of d q"
        proof (intro allI impI)
          fix q assume q: "q \<noteq> ?z \<and> q \<notin> plan_file ` set plans"
          show "map_of d' q = map_of d q"
          proof (cases "rz = None \<and> \<not> dry_run")
            case True
            obtain ra d2 where a: "apply_plans L E plans d1 = (ra, d2)"
              by (cases "apply_plans L E plans d1")
            with assms nonempty Inr False z True have "d' = d2"
              by (auto simp: okb_main_def Let_def okb_zip_path_def split: option.splits)
            with apply_plans_other[OF a] q d1 show ?thesis by simp
          next
            case False
            with assms nonempty Inr \<open>plans \<noteq> []\<close> z have "d' = d1"
              by (auto simp: okb_main_def Let_def okb_zip_path_def split: option.splits)
            with q d1 show ?thesis by simp
          qed
        qed
        have dry: "dry_run \<longrightarrow> (\<forall>q. q \<noteq> ?z \<longrightarrow> map_of d' q = map_of d q)"
        proof
          assume "dry_run"
          with assms nonempty Inr \<open>plans \<noteq> []\<close> z have "d' = d1"
            by (auto simp: okb_main_def Let_def okb_zip_path_def split: option.splits)
          with d1 show "\<forall>q. q \<noteq> ?z \<longrightarrow> map_of d' q = map_of d q" by simp
        qed
        from pl dd dry lines es1 show ?thesis
          by (intro exI[of _ plans]) (simp; blast)
      qed
    qed
  qed
qed

lemma okb_zip_path_not_json: "path_name f = ''DirectInput.json'' \<Longrightarrow> f \<noteq> okb_zip_path E backup_root"
proof
  assume a: "path_name f = ''DirectInput.json''" "f = okb_zip_path E backup_root"
  then have "last (path_name f) = last (path_name (okb_zip_path E backup_root))" by simp
  with a(1) show False by (simp add: okb_zip_path_def path_name_def)
qed

text \<open>
  Claim C10. When a document is rewritten and two of its device records, under
  different keys, have the same kind and names with the same normalized form, matched
  by the registry with a live device, the rewritten \<open>Devices\<close> mapping has fewer records
  than the input: its keys are distinct, so there is one record under the live GUID,
  and it is the rewritten later record unless a record after it is stored under that
  GUID as well.
\<close>

theorem twin_records_collapse:
  assumes "plan_for_data L device_map p (JObj members) = Inr (Some P)"
    and "map_of members ''Devices'' = Some (JObj devs)"
    and "devs = pre @ (k1, JObj o1) # mid @ (k2, JObj o2) # post"
    and "distinct (map fst devs)"
    and "dict_get o1 ''Kind'' = JStr kind" and "dict_get o2 ''Kind'' = JStr kind"
    and "kind \<noteq> []"
    and "dict_get o1 ''Name'' = JStr n1" and "dict_get o2 ''Name'' = JStr n2"
    and "n1 \<noteq> []" and "n2 \<noteq> []"
    and "normalize_name L n1 = normalize_name L n2"
    and "device_map (kind, normalize_name L n1) = Some (g # gs)"
  shows "\<exists>nd. map_of (new_data P) ''Devices'' = Some (JObj nd)
           \<and> distinct (map fst nd) \<and> length nd < length devs
           \<and> ((\<forall>x\<in>set post. fst (stored L device_map x) \<noteq> g) \<longrightarrow>
                map_of nd g = Some (JObj (AList.update ''ID'' (JStr g) o2)))"
proof -
  let ?st = "stored L device_map"
  from plan_for_data_Some[OF assms(1,2)] obtain nd chs where
    loop: "plan_loop L device_map devs ([], []) = Inr (nd, chs)"
    and P: "new_data P = AList.update ''Devices'' (JObj nd) members" by auto
  from plan_loop_map_of[OF loop] have
    m: "map_of nd = map_of (rev (map ?st devs))"
    and keys: "fst ` set nd = fst ` ?st ` set devs"
    and dist: "distinct (map fst nd)" by auto
  have g1: "matched_guid L device_map (JObj o1) = Some g"
    using assms(5,7,8,10,13) by (rule matched_guid_by_key)
  have g2: "matched_guid L device_map (JObj o2) = Some g"
    using assms(6,7,9,11) assms(13)[unfolded assms(12)] by (rule matched_guid_by_key)
  have s1: "?st (k1, JObj o1) = (g, rewritten g (JObj o1))" by (simp add: stored_def g1)
  have s2: "?st (k2, JObj o2) = (g, rewritten g (JObj o2))" by (simp add: stored_def g2)
  have ne: "(k1, JObj o1) \<noteq> (k2, JObj o2)" using assms(3,4) by auto
  have in1: "(k1, JObj o1) \<in> set devs" and in2: "(k2, JObj o2) \<in> set devs"
    using assms(3) by auto
  have "card ((fst \<circ> ?st) ` set devs) < card (set devs)"
    using card_image_less[of "set devs" "(k1, JObj o1)" "(k2, JObj o2)" "fst \<circ> ?st"]
      in1 in2 ne s1 s2 by simp
  moreover have "card (set devs) = length devs"
    using assms(4) by (simp add: distinct_card distinct_map)
  moreover have "card ((fst \<circ> ?st) ` set devs) = length nd"
  proof -
    have "(fst \<circ> ?st) ` set devs = set (map fst nd)" using keys by (simp add: image_comp)
    then show ?thesis using dist distinct_card[of "map fst nd"] by simp
  qed
  ultimately have len: "length nd < length devs" by simp
  have last: "map_of nd g = Some (JObj (AList.update ''ID'' (JStr g) o2))"
    if "\<forall>x\<in>set post. fst (?st x) \<noteq> g"
  proof -
    have "map_of (rev (map ?st post)) g = None"
      using that by (auto simp: map_of_eq_None_iff)
    then have "map_of (rev (map ?st devs)) g = Some (rewritten g (JObj o2))"
      by (simp add: assms(3) s1 s2 map_add_def)
    then show ?thesis by (simp add: m rewritten_def)
  qed
  have "map_of (new_data P) ''Devices'' = Some (JObj nd)" by (simp add: P update_conv')
  with dist len last show ?thesis by blast
qed

text \<open>
  Witness for C10: two records of the same controller under two stale GUIDs, and a
  keyboard the registry does not know.
\<close>

theorem twin_records_collapse_witness:
  "plan_for_data lib0 registry0 [''f''] doc_twins \<noteq> Inr None
   \<and> distinct (map fst twin_devices)
   \<and> fst (stored lib0 registry0
             (''kbd'', JObj [(''Kind'', JStr ''Keyboard''), (''Name'', JStr ''Keyboard'')])) \<noteq> guid2
   \<and> (\<exists>nd. (\<exists>P. plan_for_data lib0 registry0 [''f''] doc_twins = Inr (Some P)
               \<and> map_of (new_data P) ''Devices'' = Some (JObj nd))
          \<and> distinct (map fst nd) \<and> length nd < length twin_devices
          \<and> map_of nd guid2
              = Some (JObj (AList.update ''ID'' (JStr guid2) (icp_record guid3 ''Winwing  ICP'' ''second''))))"
proof -
  have "case plan_for_data lib0 registry0 [''f''] doc_twins of
          Inr (Some P) \<Rightarrow> True | _ \<Rightarrow> False" by code_simp
  then obtain P where P: "plan_for_data lib0 registry0 [''f''] (JObj [(''Devices'', JObj twin_devices)])
      = Inr (Some P)"
    unfolding doc_twins_def by (auto split: sum.splits option.splits)
  have d: "distinct (map fst twin_devices)" by code_simp
  have post: "\<forall>x\<in>set [(''kbd'', JObj [(''Kind'', JStr ''Keyboard''), (''Name'', JStr ''Keyboard'')])].
         fst (stored lib0 registry0 x) \<noteq> guid2" by code_simp
  have n: "normalize_name lib0 ''WINWING ICP'' = normalize_name lib0 ''Winwing  ICP''" by code_simp
  have r: "registry0 (''GameController'', normalize_name lib0 ''WINWING ICP'') = Some (guid2 # [])"
    by code_simp
  have shape: "twin_devices = [] @ (guid1, JObj (icp_record guid1 ''WINWING ICP'' ''first''))
      # [] @ (guid3, JObj (icp_record guid3 ''Winwing  ICP'' ''second''))
      # [(''kbd'', JObj [(''Kind'', JStr ''Keyboard''), (''Name'', JStr ''Keyboard'')])]"
    by (simp add: twin_devices_def)
  have k: "dict_get (icp_record guid1 ''WINWING ICP'' ''first'') ''Kind'' = JStr ''GameController''"
    "dict_get (icp_record guid3 ''Winwing  ICP'' ''second'') ''Kind'' = JStr ''GameController''"
    "dict_get (icp_record guid1 ''WINWING ICP'' ''first'') ''Name'' = JStr ''WINWING ICP''"
    "dict_get (icp_record guid3 ''Winwing  ICP'' ''second'') ''Name'' = JStr ''Winwing  ICP''"
    by (simp_all add: icp_record_def dict_get_def)
  have dv: "map_of [(''Devices'', JObj twin_devices)] ''Devices'' = Some (JObj twin_devices)"
    by simp
  from twin_records_collapse[OF P dv shape d k(1,2) _ k(3,4) _ _ n r] post
  obtain nd where "map_of (new_data P) ''Devices'' = Some (JObj nd)" "distinct (map fst nd)"
    "length nd < length twin_devices"
    "map_of nd guid2 = Some (JObj (AList.update ''ID'' (JStr guid2)
        (icp_record guid3 ''Winwing  ICP'' ''second'')))" by auto
  with P d post show ?thesis unfolding doc_twins_def by auto
qed

text \<open>
  Claim C9. For a \<open>DirectInput.json\<close> under the root whose text does not parse, or
  whose \<open>Devices\<close> member is no mapping, \<open>build_plan_for_file\<close> returns no plan; in
  a run of \<open>main\<close>, dry or not, the file is the same afterwards and no entry of the
  archive has its name.
\<close>

theorem bad_document_never_planned:
  assumes "read_bytes E d f = Inr text"
    and "json_loads L text = None
         \<or> (\<exists>members v. json_loads L text = Some (JObj members)
               \<and> map_of members ''Devices'' = Some v \<and> (\<forall>devs. v \<noteq> JObj devs))"
    and "path_name f = ''DirectInput.json''" and "below okb_root f"
    and "okb_main L E dry_run okb_root backup_root device_map d = (r, d', lines)"
  shows "build_plan_for_file L E d f device_map = Inr None
       \<and> map_of d' f = map_of d f
       \<and> (\<forall>z es. BackupWritten z es \<in> set lines \<longrightarrow> drop (length okb_root) f \<notin> fst ` set es)"
proof -
  from assms(2) have "json_loads L text = None
      \<or> (\<exists>data. json_loads L text = Some data \<and> plan_for_data L device_map f data = Inr None)"
  proof
    assume "json_loads L text = None"
    then show ?thesis by simp
  next
    assume "\<exists>members v. json_loads L text = Some (JObj members)
               \<and> map_of members ''Devices'' = Some v \<and> (\<forall>devs. v \<noteq> JObj devs)"
    then obtain members v where mv: "json_loads L text = Some (JObj members)"
      "map_of members ''Devices'' = Some v" "\<forall>devs. v \<noteq> JObj devs" by blast
    then have "plan_for_data L device_map f (JObj members) = Inr None"
      by (cases v) (simp_all add: plan_for_data_def)
    with mv(1) show ?thesis by simp
  qed
  with assms(1) have none: "build_plan_for_file L E d f device_map = Inr None"
    by (auto simp: build_plan_for_file_def)
  from okb_main_effect[OF assms(5)] obtain plans where X:
    "(\<forall>pl\<in>set plans. build_plan_for_file L E d (plan_file pl) device_map = Inr (Some pl)
                        \<and> below okb_root (plan_file pl))
     \<and> (\<forall>q. q \<noteq> okb_zip_path E backup_root \<and> q \<notin> plan_file ` set plans \<longrightarrow>
              map_of d' q = map_of d q)
     \<and> (dry_run \<longrightarrow> (\<forall>q. q \<noteq> okb_zip_path E backup_root \<longrightarrow> map_of d' q = map_of d q))
     \<and> (\<forall>z es. BackupWritten z es \<in> set lines \<longrightarrow>
           z = okb_zip_path E backup_root
         \<and> fst ` set es \<subseteq> (\<lambda>pl. drop (length okb_root) (plan_file pl)) ` set plans)" ..
  from X have pl: "\<forall>pl\<in>set plans. build_plan_for_file L E d (plan_file pl) device_map = Inr (Some pl)
                        \<and> below okb_root (plan_file pl)" by (rule conjunct1)
  from X have dd: "\<forall>q. q \<noteq> okb_zip_path E backup_root \<and> q \<notin> plan_file ` set plans \<longrightarrow>
              map_of d' q = map_of d q" by (elim conjE)
  from X have es: "\<forall>z es. BackupWritten z es \<in> set lines \<longrightarrow>
           fst ` set es \<subseteq> (\<lambda>pl. drop (length okb_root) (plan_file pl)) ` set plans"
    by (elim conjE) simp
  have notin: "f \<notin> plan_file ` set plans"
  proof
    assume "f \<in> plan_file ` set plans"
    then obtain p where "p \<in> set plans" "f = plan_file p" by blast
    with pl none show False by auto
  qed
  with dd okb_zip_path_not_json[OF assms(3)] have same: "map_of d' f = map_of d f" by blast
  have "\<forall>z es. BackupWritten z es \<in> set lines \<longrightarrow> drop (length okb_root) f \<notin> fst ` set es"
  proof (intro allI impI notI)
    fix z es assume "BackupWritten z es \<in> set lines" "drop (length okb_root) f \<in> fst ` set es"
    with es obtain p where p: "p \<in> set plans"
      "drop (length okb_root) f = drop (length okb_root) (plan_file p)" by blast
    with pl have "below okb_root (plan_file p)" by blast
    from below_drop_inj[OF assms(4) this p(2)] p(1) notin show False by blast
  qed
  with none same show ?thesis by blast
qed

text \<open>
  Witness for C9: a tree with a stale document, a file that is no JSON and a document
  whose \<open>Devices\<close> is a list, in replace mode and in a dry run.
\<close>

theorem bad_document_never_planned_witness:
  "read_bytes env0 okb_disk [''okb'', ''b'', ''DirectInput.json''] = Inr ''{ not json''
   \<and> json_loads lib0 ''{ not json'' = None
   \<and> read_bytes env0 okb_disk [''okb'', ''c'', ''DirectInput.json''] = Inr ''list''
   \<and> json_loads lib0 ''list'' = Some (JObj [(''Devices'', JArr [])])
   \<and> below [''okb''] [''okb'', ''b'', ''DirectInput.json'']
   \<and> build_plan_for_file lib0 env0 okb_disk [''okb'', ''b'', ''DirectInput.json''] registry0 = Inr None
   \<and> build_plan_for_file lib0 env0 okb_disk [''okb'', ''c'', ''DirectInput.json''] registry0 = Inr None
   \<and> map_of (fst (snd (okb_main lib0 env0 False [''okb''] [''sav''] registry0 okb_disk)))
        [''okb'', ''b'', ''DirectInput.json''] = Some (File ''{ not json'' 1700000005)
   \<and> map_of (fst (snd (okb_main lib0 env0 True [''okb''] [''sav''] registry0 okb_disk)))
        [''okb'', ''c'', ''DirectInput.json''] = Some (File ''list'' 1700000005)
   \<and> map_of (fst (snd (okb_main lib0 env0 False [''okb''] [''sav''] registry0 okb_disk)))
        [''okb'', ''a'', ''DirectInput.json''] = Some (File ''rewritten\<newline>'' 1700001000)"
proof -
  let ?b = "[''okb'', ''b'', ''DirectInput.json'']" and ?c = "[''okb'', ''c'', ''DirectInput.json'']"
  let ?live = "okb_main lib0 env0 False [''okb''] [''sav''] registry0 okb_disk"
  let ?dry = "okb_main lib0 env0 True [''okb''] [''sav''] registry0 okb_disk"
  have rb: "read_bytes env0 okb_disk ?b = Inr ''{ not json''" by code_simp
  have rc: "read_bytes env0 okb_disk ?c = Inr ''list''" by code_simp
  have lb: "json_loads lib0 ''{ not json'' = None" by code_simp
  have lc: "json_loads lib0 ''list'' = Some (JObj [(''Devices'', JArr [])])" by code_simp
  have nb: "path_name ?b = ''DirectInput.json''" "below [''okb''] ?b"
    "path_name ?c = ''DirectInput.json''" "below [''okb''] ?c"
    by (simp_all add: path_name_def below_def)
  have hc: "json_loads lib0 ''list'' = None
         \<or> (\<exists>members v. json_loads lib0 ''list'' = Some (JObj members)
               \<and> map_of members ''Devices'' = Some v \<and> (\<forall>devs. v \<noteq> JObj devs))"
    using lc by auto
  have live: "?live = (fst ?live, fst (snd ?live), snd (snd ?live))" by simp
  have dry: "?dry = (fst ?dry, fst (snd ?dry), snd (snd ?dry))" by simp
  have ob: "map_of okb_disk ?b = Some (File ''{ not json'' 1700000005)" by code_simp
  have oc: "map_of okb_disk ?c = Some (File ''list'' 1700000005)" by code_simp
  have a: "map_of (fst (snd ?live)) [''okb'', ''a'', ''DirectInput.json'']
      = Some (File ''rewritten\<newline>'' 1700001000)" by code_simp
  note tb = bad_document_never_planned[OF rb _ nb(1,2) live]
  note tc = bad_document_never_planned[OF rc hc nb(3,4) dry]
  from tb tc lb rb rc lc nb ob oc a show ?thesis by simp
qed









text \<open>
  Claim C8, as amended. \<open>build_index\<close> of \<open>bms_restore\<close> yields the empty index for a
  directory that does not exist, and \<open>restore_from_backups\<close> over a missing backup
  directory prints a warning and returns, with nothing changed, whether the live
  directory exists or not. When the backup directory exists and the live directory is
  missing, \<open>restore_from_backups\<close> raises \<open>FileNotFoundError\<close>. \<open>restore_dcs\<close> raises
  \<open>FileNotFoundError\<close> when the backup directory or the live directory is missing. In
  each of these cases nothing is changed.
\<close>

theorem missing_directories:
  "(\<not> path_exists d folder \<longrightarrow> build_index d folder = Inr [])
   \<and> (\<not> path_exists (disk st) (backup_dir S) \<longrightarrow>
        restore_from_backups E S st = (None, say (WARN (backup_dir S)) st)
        \<and> disk (say (WARN (backup_dir S)) st) = disk st)
   \<and> (path_exists (disk st) (backup_dir S) \<and> \<not> path_exists (disk st) (input_dir S) \<longrightarrow>
        restore_from_backups E S st = (Some FileNotFoundError, st))
   \<and> (\<not> path_exists (disk st) (backup_dir S) \<or> \<not> path_exists (disk st) (input_dir S) \<longrightarrow>
        restore_dcs E S dry_run st = (Some FileNotFoundError, st))"
  by (auto simp: build_index_def list_xml_files_def restore_from_backups_def restore_dcs_def
        say_def)

text \<open>
  Witness for C8: the disk without a backup directory, and \<open>bms_disk\<close>, which has no
  directory \<open>dcs\<close>.
\<close>

theorem missing_directories_witness:
  "\<not> path_exists live_only_disk [''bak'']
   \<and> build_index live_only_disk [''bak''] = Inr []
   \<and> restore_from_backups env0 bms_settings (run0 live_only_disk)
       = (None, say (WARN [''bak'']) (run0 live_only_disk))
   \<and> path_exists bms_disk [''bak''] \<and> \<not> path_exists bms_disk [''dcs'']
   \<and> restore_from_backups env0 (bms_settings\<lparr>input_dir := [''dcs'']\<rparr>) (run0 bms_disk)
       = (Some FileNotFoundError, run0 bms_disk)
   \<and> restore_dcs env0 dcs_settings True (run0 live_only_disk)
       = (Some FileNotFoundError, run0 live_only_disk)"
proof -
  have a: "\<not> path_exists live_only_disk [''bak'']" by code_simp
  have b: "path_exists bms_disk [''bak'']" "\<not> path_exists bms_disk [''dcs'']" by code_simp+
  have c: "\<not> path_exists (disk (run0 live_only_disk)) (backup_dir dcs_settings)" by code_simp
  have s: "backup_dir bms_settings = [''bak'']" "disk (run0 live_only_disk) = live_only_disk"
    "disk (run0 bms_disk) = bms_disk"
    "backup_dir (bms_settings\<lparr>input_dir := [''dcs'']\<rparr>) = [''bak'']"
    "input_dir (bms_settings\<lparr>input_dir := [''dcs'']\<rparr>) = [''dcs'']"
    by (simp_all add: bms_settings_def run0_def)
  note t1 = missing_directories[where d = live_only_disk and folder = "[''bak'']"
      and st = "run0 live_only_disk" and S = bms_settings and E = env0]
  note t2 = missing_directories[where st = "run0 bms_disk"
      and S = "bms_settings\<lparr>input_dir := [''dcs'']\<rparr>" and E = env0]
  note t3 = missing_directories[where st = "run0 live_only_disk" and S = dcs_settings
      and E = env0 and dry_run = True]
  from t1 a s have r1: "build_index live_only_disk [''bak''] = Inr []"
    "restore_from_backups env0 bms_settings (run0 live_only_disk)
       = (None, say (WARN [''bak'']) (run0 live_only_disk))" by simp_all
  from t2 b s have r2: "restore_from_backups env0 (bms_settings\<lparr>input_dir := [''dcs'']\<rparr>)
      (run0 bms_disk) = (Some FileNotFoundError, run0 bms_disk)" by simp
  from t3 c have r3: "restore_dcs env0 dcs_settings True (run0 live_only_disk)
       = (Some FileNotFoundError, run0 live_only_disk)" by simp
  from a b r1 r2 r3 show ?thesis by (intro conjI)
qed

text \<open>
  Counterexample to C8 as stated: the backup directory is missing and the pass of
  \<open>dcs_restore\<close> raises.
\<close>

theorem restore_dcs_raises_on_missing_backup:
  "\<not> path_exists (disk (run0 live_only_disk)) (backup_dir dcs_settings)
   \<and> fst (restore_dcs env0 dcs_settings False (run0 live_only_disk)) = Some FileNotFoundError"
  by code_simp





text \<open>
  Claim C6, at the input where the code departs from it: a dry run of \<open>dcs_restore\<close>
  with \<open>copy_if_missing\<close> set, on a live tree without the \<open>joystick\<close> folder. \<open>main\<close>
  writes no archive in a dry run, and the pass still makes the folder and copies the
  backup file into the live tree.
\<close>

theorem dry_run_copies_without_snapshot:
  "fst (dcs_main env0 dcs_settings_copy True (run0 dcs_disk_bare)) = None
   \<and> map_of dcs_disk_bare [''dcs'', ''joystick''] = None
   \<and> map_of dcs_disk_bare [''dcs'', ''joystick'', ''ICP '' @ guid1 @ ''.diff.lua''] = None
   \<and> map_of (disk (snd (dcs_main env0 dcs_settings_copy True (run0 dcs_disk_bare))))
        [''dcs'', ''joystick''] = Some Dir
   \<and> map_of (disk (snd (dcs_main env0 dcs_settings_copy True (run0 dcs_disk_bare))))
        [''dcs'', ''joystick'', ''ICP '' @ guid1 @ ''.diff.lua''] = Some (File ''X'' 1700000010)
   \<and> out (snd (dcs_main env0 dcs_settings_copy True (run0 dcs_disk_bare)))
       = [COPY [''dcs'', ''joystick'', ''ICP '' @ guid1 @ ''.diff.lua''], SUMMARY 0 0 1 (Some 1)]"
  by code_simp


section \<open>Dry runs\<close>


end
